theory Spec2Isabelle
  imports Complex_Main "HOL-Library.Word"
begin

section \<open>Data model\<close>

text \<open>
  The filesystem verifier of the update engine
  (\<^verbatim>\<open>payload_consumer/filesystem_verifier_action.cc\<close>), as a shallow embedding.
  Byte counts and offsets are \<^verbatim>\<open>uint64_t\<close> in the source and \<open>64 word\<close> here;
  \<^verbatim>\<open>size_t\<close> is taken to be 64 bits wide as well.
\<close>

datatype ErrorCode =
    kSuccess
  | kError
  | kFilesystemVerifierError
  | kNewRootfsVerificationError
  | kDownloadStateInitializationError
  | kVerityCalculationError

datatype VerifierStep = kVerifySourceHash | kVerifyTargetHash

type_synonym blob = "8 word list"

type_synonym slot = "32 word"

record Partition =
  name :: string
  source_path :: string
  source_size :: "64 word"
  source_hash :: blob
  target_path :: string
  readonly_target_path :: string
  target_size :: "64 word"
  target_hash :: blob
  hash_tree_offset :: "64 word"
  hash_tree_size :: "64 word"
  fec_offset :: "64 word"
  fec_size :: "64 word"

record InstallPlan =
  source_slot :: slot
  target_slot :: slot
  write_verity :: bool
  partitions :: "Partition list"
  untouched_dynamic_partitions :: "string list"

text \<open>
  The value handed to \<^verbatim>\<open>OnVerifyProgressUpdate\<close> is a \<^verbatim>\<open>double\<close>. The quotient is
  kept exact (a rational); a division by a zero partition size, which IEEE arithmetic
  answers with a NaN or an infinity, is a value of its own.
\<close>

datatype progress = Finite rat | NotANumber | Infinite

text \<open>
  Everything the verifier does to its collaborators (the dynamic partition control, the
  verity writer, the descriptor, the hasher, the progress delegate, the action processor
  and the message loop) is recorded as an event, newest first.
\<close>

datatype event =
    EvUnmapAllPartitions
  | EvMapAllPartitions
  | EvOpenCowFd string string bool
  | EvSetBlockDeviceReadOnly string bool bool
  | EvOpen string bool bool
  | EvVerifyExtents slot slot "string list" bool
  | EvVerityInit Partition bool
  | EvVerityUpdate "64 word" nat bool
  | EvVerityFinalize bool
  | EvSeek "64 word"
  | EvRead "64 word" nat int
  | EvNewHasher
  | EvHasherUpdate nat bool
  | EvHasherFinalize bool
  | EvProgress progress
  | EvSetOutputObject InstallPlan
  | EvActionComplete ErrorCode
  | EvPostTask nat
  | EvCancelTask

text \<open>
  The collaborators are not part of the verifier: each answer they give is a parameter,
  and may depend on the call's arguments and on the time of the call, which is the number
  of events recorded so far, so that any sequence of answers is some environment.
\<close>

record env =
  UpdateUsesSnapshotCompression :: "nat \<Rightarrow> bool"
  IsDynamicPartition :: "nat \<Rightarrow> string \<Rightarrow> slot \<Rightarrow> bool"
  OpenCowFd :: "nat \<Rightarrow> string \<Rightarrow> string \<Rightarrow> bool"
  VerifyExtentsForUntouchedPartitions ::
    "nat \<Rightarrow> slot \<Rightarrow> slot \<Rightarrow> string list \<Rightarrow> bool"
  SetBlockDeviceReadOnly :: "nat \<Rightarrow> string \<Rightarrow> bool \<Rightarrow> bool"
  fd_Open :: "nat \<Rightarrow> string \<Rightarrow> bool \<Rightarrow> bool"
  fd_Read :: "nat \<Rightarrow> nat \<Rightarrow> int"
  verity_Init :: "nat \<Rightarrow> Partition \<Rightarrow> bool"
  verity_Update :: "nat \<Rightarrow> 64 word \<Rightarrow> nat \<Rightarrow> bool"
  verity_Finalize :: "nat \<Rightarrow> bool"
  verity_Finalize_pos :: "nat \<Rightarrow> 64 word"
  hasher_Update :: "nat \<Rightarrow> nat \<Rightarrow> bool"
  hasher_Finalize :: "nat \<Rightarrow> bool"
  raw_hash :: "nat \<Rightarrow> blob"

text \<open>
  The members of \<^verbatim>\<open>FilesystemVerifierAction\<close>. \<open>partition_fd\<close> is \<open>None\<close> for a null
  pointer and otherwise holds the descriptor's file position; \<open>buffer\<close> is the size of
  the read buffer (its bytes go to the hasher and the verity writer only, whose answers
  are parameters); \<open>pending_task\<close> is the task posted to the message loop, with the
  byte count bound to \<^verbatim>\<open>OnReadDone\<close>; \<open>crashed\<close> records that the process has died
  (a failed \<^verbatim>\<open>CHECK\<close>, or an access the source leaves undefined).
\<close>

record verifier =
  install_plan :: InstallPlan
  verifier_step :: VerifierStep
  partition_index :: nat
  partition_fd :: "64 word option"
  buffer :: nat
  cancelled :: bool
  partition_size :: "64 word"
  offset :: "64 word"
  filesystem_data_end :: "64 word"
  delegate :: bool
  out_pipe :: bool
  pending_task :: "nat option"
  trace :: "event list"
  crashed :: bool

definition kReadFileBufferSize :: nat where
  "kReadFileBufferSize = 128 * 1024"

definition emit :: "event \<Rightarrow> verifier \<Rightarrow> verifier" where
  "emit e s = s\<lparr>trace := e # trace s\<rparr>"

definition now :: "verifier \<Rightarrow> nat" where
  "now s = length (trace s)"

definition crash :: "verifier \<Rightarrow> verifier" where
  "crash s = s\<lparr>crashed := True, pending_task := None\<rparr>"

section \<open>Operations\<close>

definition UpdateProgress :: "progress \<Rightarrow> verifier \<Rightarrow> verifier" where
  "UpdateProgress p s = (if delegate s then emit (EvProgress p) s else s)"

definition Cleanup :: "env \<Rightarrow> ErrorCode \<Rightarrow> verifier \<Rightarrow> verifier" where
  "Cleanup env code s0 =
    (let s1 = s0\<lparr>partition_fd := None, buffer := 0\<rparr>;
         s2 = (if \<not> write_verity (install_plan s1) \<and>
                  UpdateUsesSnapshotCompression env (now s1)
               then emit EvUnmapAllPartitions s1 else s1)
     in if cancelled s2 then s2
        else
          (let s3 = (if code = kSuccess \<and> out_pipe s2
                     then emit (EvSetOutputObject (install_plan s2)) s2 else s2);
               s4 = UpdateProgress (Finite 1) s3
           in emit (EvActionComplete code) s4))"

text \<open>
  \<^verbatim>\<open>ShouldWriteVerity\<close> reads \<^verbatim>\<open>partitions[partition_index]\<close>; its callers below check
  the index before they call it.
\<close>

definition ShouldWriteVerity :: "verifier \<Rightarrow> bool" where
  "ShouldWriteVerity s =
    (let part = partitions (install_plan s) ! partition_index s
     in verifier_step s = kVerifyTargetHash \<and>
        write_verity (install_plan s) \<and>
        (hash_tree_size part > 0 \<or> fec_size part > 0))"

definition InitializeFd :: "env \<Rightarrow> string \<Rightarrow> verifier \<Rightarrow> bool \<times> verifier" where
  "InitializeFd env part_path s0 =
    (let s1 = s0\<lparr>partition_fd := Some 0\<rparr>;
         wv = ShouldWriteVerity s1;
         ro_ok = SetBlockDeviceReadOnly env (now s1) part_path (\<not> wv);
         s2 = emit (EvSetBlockDeviceReadOnly part_path (\<not> wv) ro_ok) s1;
         opened = fd_Open env (now s2) part_path wv;
         s3 = emit (EvOpen part_path wv opened) s2
     in (opened, s3))"

definition InitializeFdVABC :: "env \<Rightarrow> verifier \<Rightarrow> bool \<times> verifier" where
  "InitializeFdVABC env s0 =
    (let part = partitions (install_plan s0) ! partition_index s0
     in if \<not> ShouldWriteVerity s0 then
          InitializeFd env (readonly_target_path part)
            (emit EvMapAllPartitions (emit EvUnmapAllPartitions s0))
        else
          (let opened = OpenCowFd env (now s0) (name part) (source_path part);
               s1 = emit (EvOpenCowFd (name part) (source_path part) opened) s0
           in if \<not> opened then (False, s1\<lparr>partition_fd := None\<rparr>)
              else (True, s1\<lparr>partition_fd := Some 0,
                              partition_size := target_size part\<rparr>)))"

text \<open>
  \<^verbatim>\<open>partition_fd->Seek(offset, SEEK_SET)\<close> and \<^verbatim>\<open>partition_fd->Read(buffer, count)\<close>.
  A read never returns more than the count asked for, so the environment's answer is
  capped; a positive result moves the file position. Both are called on a non-null
  descriptor only (their callers check).
\<close>

definition Seek :: "64 word \<Rightarrow> verifier \<Rightarrow> verifier" where
  "Seek pos s = emit (EvSeek pos) (s\<lparr>partition_fd := Some pos\<rparr>)"

definition Read :: "env \<Rightarrow> nat \<Rightarrow> verifier \<Rightarrow> int \<times> verifier" where
  "Read env count s =
    (let pos = (case partition_fd s of None \<Rightarrow> 0 | Some p \<Rightarrow> p);
         answer = fd_Read env (now s) count;
         bytes_read = (if answer > int count then int count else answer);
         s1 = emit (EvRead pos count bytes_read) s
     in (bytes_read,
         if bytes_read > 0 then s1\<lparr>partition_fd := Some (pos + word_of_int bytes_read)\<rparr>
         else s1))"

text \<open>
  The \<^verbatim>\<open>while (bytes_to_read > 0)\<close> loop of \<^verbatim>\<open>ReadVerityAndFooter\<close>. It returns the
  error code of the branch that leaves the function early, if one does.
\<close>

function read_rest :: "env \<Rightarrow> 64 word \<Rightarrow> verifier \<Rightarrow> ErrorCode option \<times> verifier" where
  "read_rest env bytes_to_read s =
    (if bytes_to_read > 0 then
       (let read_size = min (buffer s) (unat bytes_to_read);
            r = Read env read_size s;
            bytes_read = fst r;
            s1 = snd r
        in if bytes_read \<le> 0 then (Some kFilesystemVerifierError, s1)
           else
             (let ok = hasher_Update env (now s1) (nat bytes_read);
                  s2 = emit (EvHasherUpdate (nat bytes_read) ok) s1
              in if \<not> ok then (Some kError, s2)
                 else read_rest env (bytes_to_read - word_of_int bytes_read) s2))
     else (None, s))"
  by pat_completeness auto


lemma word_sub_int_less:
  fixes w :: "64 word"
  assumes "0 < r" and "r \<le> int (unat w)"
  shows "unat (w - word_of_int r) < unat w"
proof -
  obtain k where k: "r = int k" "0 < k" "k \<le> unat w"
    using assms by (metis nat_le_iff pos_int_cases zero_less_imp_eq_int nat_int of_nat_0_less_iff)
  have "unat (of_nat k :: 64 word) = k"
    using k(3) by (metis le_unat_uoi)
  moreover have "(of_nat k :: 64 word) \<le> w"
    using k(3) calculation by (simp add: word_le_nat_alt)
  ultimately have "unat (w - of_nat k) = unat w - k"
    by (simp add: unat_sub)
  then show ?thesis using k by simp
qed

lemma Read_le_count: "fst (Read env count s) \<le> int count"
  by (simp add: Read_def Let_def)

termination read_rest
proof (relation "measure (\<lambda>(env, bytes_to_read, s). unat bytes_to_read)")
  show "wf (measure (\<lambda>(env, bytes_to_read, s). unat bytes_to_read))"
    by simp
next
  fix env :: env and bytes_to_read :: "64 word" and s :: verifier
    and read_size r bytes_read s1 ok s2
  assume "read_size = min (buffer s) (unat bytes_to_read)"
    and "r = Read env read_size s" and "bytes_read = fst r" and "\<not> bytes_read \<le> 0"
  then have pos: "0 < bytes_read" and le: "bytes_read \<le> int read_size"
    and "read_size \<le> unat bytes_to_read"
    using Read_le_count [of env read_size s] by simp_all
  then have "bytes_read \<le> int (unat bytes_to_read)"
    by linarith
  with pos have "unat (bytes_to_read - word_of_int bytes_read) < unat bytes_to_read"
    by (rule word_sub_int_less)
  then show "((env, bytes_to_read - word_of_int bytes_read, s2), (env, bytes_to_read, s))
      \<in> measure (\<lambda>(env, bytes_to_read, s). unat bytes_to_read)"
    by simp
qed

declare read_rest.simps [simp del]

text \<open>
  The four functions that call each other while a partition is hashed. Logging and
  \<^verbatim>\<open>install_plan_.Dump()\<close> are left out. \<^verbatim>\<open>partitions[partition_index_]\<close> with the
  index out of range and a call through a null \<^verbatim>\<open>partition_fd_\<close> are undefined in
  the source and end the process here, as the failed \<^verbatim>\<open>CHECK_LE\<close> does.
\<close>

function StartPartitionHashing :: "env \<Rightarrow> verifier \<Rightarrow> verifier"
  and ScheduleFileSystemRead :: "env \<Rightarrow> verifier \<Rightarrow> verifier"
  and ReadVerityAndFooter :: "env \<Rightarrow> verifier \<Rightarrow> verifier"
  and FinishPartitionHashing :: "env \<Rightarrow> verifier \<Rightarrow> verifier"
where
  "StartPartitionHashing env s =
    (if partition_index s = length (partitions (install_plan s)) then
       (if untouched_dynamic_partitions (install_plan s) \<noteq> [] then
          (let ok = VerifyExtentsForUntouchedPartitions env (now s)
                      (source_slot (install_plan s)) (target_slot (install_plan s))
                      (untouched_dynamic_partitions (install_plan s));
               s1 = emit (EvVerifyExtents (source_slot (install_plan s))
                            (target_slot (install_plan s))
                            (untouched_dynamic_partitions (install_plan s)) ok) s
           in if \<not> ok then Cleanup env kFilesystemVerifierError s1
              else Cleanup env kSuccess s1)
        else Cleanup env kSuccess s)
     else if partition_index s > length (partitions (install_plan s)) then crash s
     else
       (let part = partitions (install_plan s) ! partition_index s;
            part_path = (case verifier_step s of
                           kVerifySourceHash \<Rightarrow> source_path part
                         | kVerifyTargetHash \<Rightarrow> target_path part);
            s1 = s\<lparr>partition_size := (case verifier_step s of
                                         kVerifySourceHash \<Rightarrow> source_size part
                                       | kVerifyTargetHash \<Rightarrow> target_size part)\<rparr>;
            vabc = (UpdateUsesSnapshotCompression env (now s1) \<and>
                    verifier_step s1 = kVerifyTargetHash \<and>
                    IsDynamicPartition env (now s1) (name part)
                      (target_slot (install_plan s1)))
        in if \<not> vabc \<and> part_path = [] then
             (if partition_size s1 = 0 then
                StartPartitionHashing env (s1\<lparr>partition_index := partition_index s1 + 1\<rparr>)
              else Cleanup env kFilesystemVerifierError s1)
           else
             (let r = (if vabc then InitializeFdVABC env s1
                       else InitializeFd env part_path s1);
                  success = fst r;
                  s2 = snd r
              in if \<not> success then Cleanup env kFilesystemVerifierError s2
                 else
                   (let s3 = emit EvNewHasher (s2\<lparr>buffer := kReadFileBufferSize\<rparr>);
                        s4 = s3\<lparr>offset := 0, filesystem_data_end := partition_size s3\<rparr>
                    in if \<not> hash_tree_offset part \<le> fec_offset part then crash s4
                       else
                         (let s5 = (if hash_tree_offset part \<noteq> 0
                                    then s4\<lparr>filesystem_data_end := hash_tree_offset part\<rparr>
                                    else if fec_offset part \<noteq> 0
                                    then s4\<lparr>filesystem_data_end := fec_offset part\<rparr>
                                    else s4)
                          in if ShouldWriteVerity s5 then
                               (let ok = verity_Init env (now s5) part;
                                    s6 = emit (EvVerityInit part ok) s5
                                in if \<not> ok then Cleanup env kVerityCalculationError s6
                                   else ScheduleFileSystemRead env s6)
                             else ScheduleFileSystemRead env s5)))))"
| "ScheduleFileSystemRead env s =
    (let bytes_to_read = min (word_of_nat (buffer s)) (filesystem_data_end s - offset s)
     in if bytes_to_read = 0 then ReadVerityAndFooter env s
        else if partition_fd s = None then crash s
        else
          (let s1 = Seek (offset s) s;
               r = Read env (unat bytes_to_read) s1;
               bytes_read = fst r;
               s2 = snd r
           in if bytes_read < 0 then Cleanup env kError s2
              else emit (EvPostTask (nat bytes_read))
                     (s2\<lparr>pending_task := Some (nat bytes_read)\<rparr>)))"
| "ReadVerityAndFooter env s =
    (if partition_index s \<ge> length (partitions (install_plan s)) then crash s
     else
       (let finalized = (if ShouldWriteVerity s
                         then Some (verity_Finalize env (now s)) else None);
            s1 = (case finalized of
                    None \<Rightarrow> s
                  | Some ok \<Rightarrow>
                      emit (EvVerityFinalize ok)
                        (s\<lparr>partition_fd :=
                             map_option (\<lambda>_. verity_Finalize_pos env (now s))
                               (partition_fd s)\<rparr>))
        in if finalized = Some False then Cleanup env kFilesystemVerifierError s1
           else if partition_fd s1 = None then crash s1
           else
             (let s2 = Seek (filesystem_data_end s1) s1;
                  r = read_rest env (partition_size s2 - filesystem_data_end s2) s2
              in case fst r of
                   Some code \<Rightarrow> Cleanup env code (snd r)
                 | None \<Rightarrow> FinishPartitionHashing env (snd r))))"
| "FinishPartitionHashing env s =
    (let ok = hasher_Finalize env (now s);
         s1 = emit (EvHasherFinalize ok) s
     in if \<not> ok then Cleanup env kError s1
        else if partition_index s1 \<ge> length (partitions (install_plan s1)) then crash s1
        else
          (let part = partitions (install_plan s1) ! partition_index s1
           in case verifier_step s1 of
                kVerifyTargetHash \<Rightarrow>
                  (if target_hash part \<noteq> raw_hash env (now s1) then
                     (if source_hash part = [] then
                        Cleanup env kNewRootfsVerificationError s1
                      else
                        StartPartitionHashing env
                          (s1\<lparr>verifier_step := kVerifySourceHash,
                               buffer := 0, partition_fd := None\<rparr>))
                   else
                     StartPartitionHashing env
                       (s1\<lparr>partition_index := partition_index s1 + 1,
                            buffer := 0, partition_fd := None\<rparr>))
              | kVerifySourceHash \<Rightarrow>
                  (if source_hash part \<noteq> raw_hash env (now s1) then
                     Cleanup env kDownloadStateInitializationError s1
                   else Cleanup env kNewRootfsVerificationError s1)))"
  by pat_completeness auto


text \<open>
  Hashing passes still to come: two for every partition from the current one on, less one
  when the current partition is already in its source pass.
\<close>

definition passes_left :: "verifier \<Rightarrow> nat" where
  "passes_left s =
    2 * (length (partitions (install_plan s)) - partition_index s) +
    (case verifier_step s of kVerifyTargetHash \<Rightarrow> 1 | kVerifySourceHash \<Rightarrow> 0)"

lemma Read_frame:
  "install_plan (snd (Read env n s)) = install_plan s"
  "partition_index (snd (Read env n s)) = partition_index s"
  "verifier_step (snd (Read env n s)) = verifier_step s"
  by (simp_all add: Read_def Let_def emit_def)

lemma read_rest_frame:
  "install_plan (snd (read_rest env b s)) = install_plan s \<and>
   partition_index (snd (read_rest env b s)) = partition_index s \<and>
   verifier_step (snd (read_rest env b s)) = verifier_step s"
proof (induction env b s rule: read_rest.induct)
  case (1 env b s)
  show ?case
    using 1 [OF _ refl refl refl refl _ refl refl]
    by (subst (1 2 3) read_rest.simps) (simp add: Let_def Read_frame emit_def)
qed

lemma InitializeFd_frame:
  "install_plan (snd (InitializeFd env p s)) = install_plan s"
  "partition_index (snd (InitializeFd env p s)) = partition_index s"
  "verifier_step (snd (InitializeFd env p s)) = verifier_step s"
  by (simp_all add: InitializeFd_def Let_def emit_def)

lemma InitializeFdVABC_frame:
  "install_plan (snd (InitializeFdVABC env s)) = install_plan s"
  "partition_index (snd (InitializeFdVABC env s)) = partition_index s"
  "verifier_step (snd (InitializeFdVABC env s)) = verifier_step s"
  by (simp_all add: InitializeFdVABC_def Let_def emit_def InitializeFd_frame)

termination StartPartitionHashing
  apply (relation "measure (\<lambda>x. case x of
      Inl (Inl (env, s)) \<Rightarrow> 4 * passes_left s + 3
    | Inl (Inr (env, s)) \<Rightarrow> 4 * passes_left s + 2
    | Inr (Inl (env, s)) \<Rightarrow> 4 * passes_left s + 1
    | Inr (Inr (env, s)) \<Rightarrow> 4 * passes_left s)")
  apply simp
  apply (simp_all add: passes_left_def emit_def Seek_def InitializeFd_frame
      InitializeFdVABC_frame read_rest_frame split: VerifierStep.split)
  done

declare StartPartitionHashing.simps [simp del]
declare ScheduleFileSystemRead.simps [simp del]
declare ReadVerityAndFooter.simps [simp del]
declare FinishPartitionHashing.simps [simp del]

text \<open>
  \<^verbatim>\<open>(static_cast<double>(offset_) / partition_size_ + partition_index_) / partitions.size()\<close>,
  on operands that are never negative.
\<close>

definition double_div :: "rat \<Rightarrow> rat \<Rightarrow> progress" where
  "double_div a b =
    (if b = 0 then (if a = 0 then NotANumber else Infinite) else Finite (a / b))"

definition progress_value :: "64 word \<Rightarrow> 64 word \<Rightarrow> nat \<Rightarrow> nat \<Rightarrow> progress" where
  "progress_value off psize index n =
    (case double_div (of_nat (unat off)) (of_nat (unat psize)) of
       Finite q \<Rightarrow> double_div (q + of_nat index) (of_nat n)
     | NotANumber \<Rightarrow> NotANumber
     | Infinite \<Rightarrow> Infinite)"

definition OnReadDone :: "env \<Rightarrow> nat \<Rightarrow> verifier \<Rightarrow> verifier" where
  "OnReadDone env bytes_read s =
    (if cancelled s then Cleanup env kError s
     else if bytes_read = 0 then Cleanup env kFilesystemVerifierError s
     else
       (let ok = hasher_Update env (now s) bytes_read;
            s1 = emit (EvHasherUpdate bytes_read ok) s
        in if \<not> ok then Cleanup env kError s1
           else
             (let s2 = UpdateProgress
                         (progress_value (offset s1) (partition_size s1) (partition_index s1)
                            (length (partitions (install_plan s1)))) s1
              in if partition_index s2 \<ge> length (partitions (install_plan s2)) then crash s2
                 else
                   (let updated = (if ShouldWriteVerity s2
                                   then Some (verity_Update env (now s2) (offset s2) bytes_read)
                                   else None);
                        s3 = (case updated of
                                None \<Rightarrow> s2
                              | Some uok \<Rightarrow> emit (EvVerityUpdate (offset s2) bytes_read uok) s2)
                    in if updated = Some False then Cleanup env kVerityCalculationError s3
                       else
                         (let s4 = s3\<lparr>offset := offset s3 + word_of_nat bytes_read\<rparr>
                          in if offset s4 = filesystem_data_end s4
                             then ReadVerityAndFooter env s4
                             else ScheduleFileSystemRead env s4)))))"

text \<open>
  \<^verbatim>\<open>PerformAction\<close>. The \<^verbatim>\<open>ScopedActionCompleter\<close> completes the action with its code
  (\<^verbatim>\<open>kError\<close> unless set) on the two paths that return before hashing starts.
\<close>

definition PerformAction :: "env \<Rightarrow> InstallPlan option \<Rightarrow> verifier \<Rightarrow> verifier" where
  "PerformAction env input_object s =
    (case input_object of
       None \<Rightarrow> emit (EvActionComplete kError) s
     | Some plan \<Rightarrow>
         (let s1 = s\<lparr>install_plan := plan\<rparr>
          in if partitions (install_plan s1) = [] then
               (let s2 = (if out_pipe s1
                          then emit (EvSetOutputObject (install_plan s1)) s1 else s1)
                in emit (EvActionComplete kSuccess) s2)
             else StartPartitionHashing env s1))"

definition TerminateProcessing :: "env \<Rightarrow> verifier \<Rightarrow> verifier" where
  "TerminateProcessing env s =
    Cleanup env kSuccess ((emit EvCancelTask s)\<lparr>pending_task := None, cancelled := True\<rparr>)"

text \<open>
  The message loop and the caller. A run is \<^verbatim>\<open>PerformAction\<close> on a fresh action, followed
  by any sequence of turns: the loop runs the pending task, or the caller cancels.
\<close>

datatype turn = RunTask | Cancel

definition run_pending :: "env \<Rightarrow> verifier \<Rightarrow> verifier" where
  "run_pending env s =
    (case pending_task s of
       None \<Rightarrow> s
     | Some bytes_read \<Rightarrow> OnReadDone env bytes_read (s\<lparr>pending_task := None\<rparr>))"

definition take_turn :: "env \<Rightarrow> turn \<Rightarrow> verifier \<Rightarrow> verifier" where
  "take_turn env t s =
    (if crashed s then s
     else case t of RunTask \<Rightarrow> run_pending env s | Cancel \<Rightarrow> TerminateProcessing env s)"

primrec turns :: "env \<Rightarrow> turn list \<Rightarrow> verifier \<Rightarrow> verifier" where
  "turns env [] s = s"
| "turns env (t # ts) s = turns env ts (take_turn env t s)"

definition new_action :: "bool \<Rightarrow> bool \<Rightarrow> verifier" where
  "new_action has_delegate has_out_pipe =
    \<lparr>install_plan = \<lparr>source_slot = 0, target_slot = 0, write_verity = False,
                       partitions = [], untouched_dynamic_partitions = []\<rparr>,
     verifier_step = kVerifyTargetHash,
     partition_index = 0,
     partition_fd = None,
     buffer = 0,
     cancelled = False,
     partition_size = 0,
     offset = 0,
     filesystem_data_end = 0,
     delegate = has_delegate,
     out_pipe = has_out_pipe,
     pending_task = None,
     trace = [],
     crashed = False\<rparr>"

definition run :: "env \<Rightarrow> bool \<Rightarrow> bool \<Rightarrow> InstallPlan option \<Rightarrow> turn list \<Rightarrow> verifier" where
  "run env has_delegate has_out_pipe input_object ts =
    turns env ts (PerformAction env input_object (new_action has_delegate has_out_pipe))"

section \<open>One step of the hashing functions\<close>

text \<open>
  For the proofs, the four mutually recursive functions and their two callers are also
  read as a machine: \<open>body\<close> is the text of each function with every call to one of
  the four replaced by the name of the callee and the state it is called on. \<open>exec_unfold\<close> shows that running the
  machine is the function, and \<open>exec_rule\<close> is the resulting proof rule for a property
  that every step hands on.
\<close>

datatype pc =
    AtStart | AtSchedule | AtReadVerity | AtFinish
  | AtOnReadDone nat | AtPerformAction "InstallPlan option"

fun exec :: "env \<Rightarrow> pc \<Rightarrow> verifier \<Rightarrow> verifier" where
  "exec env AtStart s = StartPartitionHashing env s"
| "exec env AtSchedule s = ScheduleFileSystemRead env s"
| "exec env AtReadVerity s = ReadVerityAndFooter env s"
| "exec env AtFinish s = FinishPartitionHashing env s"
| "exec env (AtOnReadDone bytes_read) s = OnReadDone env bytes_read s"
| "exec env (AtPerformAction input_object) s = PerformAction env input_object s"

fun body :: "env \<Rightarrow> pc \<Rightarrow> verifier \<Rightarrow> (pc \<times> verifier) + verifier" where
  "body env AtStart s =
    (if partition_index s = length (partitions (install_plan s)) then
       (if untouched_dynamic_partitions (install_plan s) \<noteq> [] then
          (let ok = VerifyExtentsForUntouchedPartitions env (now s)
                      (source_slot (install_plan s)) (target_slot (install_plan s))
                      (untouched_dynamic_partitions (install_plan s));
               s1 = emit (EvVerifyExtents (source_slot (install_plan s))
                            (target_slot (install_plan s))
                            (untouched_dynamic_partitions (install_plan s)) ok) s
           in if \<not> ok then Inr (Cleanup env kFilesystemVerifierError s1)
              else Inr (Cleanup env kSuccess s1))
        else Inr (Cleanup env kSuccess s))
     else if partition_index s > length (partitions (install_plan s)) then Inr (crash s)
     else
       (let part = partitions (install_plan s) ! partition_index s;
            part_path = (case verifier_step s of
                           kVerifySourceHash \<Rightarrow> source_path part
                         | kVerifyTargetHash \<Rightarrow> target_path part);
            s1 = s\<lparr>partition_size := (case verifier_step s of
                                         kVerifySourceHash \<Rightarrow> source_size part
                                       | kVerifyTargetHash \<Rightarrow> target_size part)\<rparr>;
            vabc = (UpdateUsesSnapshotCompression env (now s1) \<and>
                    verifier_step s1 = kVerifyTargetHash \<and>
                    IsDynamicPartition env (now s1) (name part)
                      (target_slot (install_plan s1)))
        in if \<not> vabc \<and> part_path = [] then
             (if partition_size s1 = 0 then
                Inl (AtStart, s1\<lparr>partition_index := partition_index s1 + 1\<rparr>)
              else Inr (Cleanup env kFilesystemVerifierError s1))
           else
             (let r = (if vabc then InitializeFdVABC env s1
                       else InitializeFd env part_path s1);
                  success = fst r;
                  s2 = snd r
              in if \<not> success then Inr (Cleanup env kFilesystemVerifierError s2)
                 else
                   (let s3 = emit EvNewHasher (s2\<lparr>buffer := kReadFileBufferSize\<rparr>);
                        s4 = s3\<lparr>offset := 0, filesystem_data_end := partition_size s3\<rparr>
                    in if \<not> hash_tree_offset part \<le> fec_offset part then Inr (crash s4)
                       else
                         (let s5 = (if hash_tree_offset part \<noteq> 0
                                    then s4\<lparr>filesystem_data_end := hash_tree_offset part\<rparr>
                                    else if fec_offset part \<noteq> 0
                                    then s4\<lparr>filesystem_data_end := fec_offset part\<rparr>
                                    else s4)
                          in if ShouldWriteVerity s5 then
                               (let ok = verity_Init env (now s5) part;
                                    s6 = emit (EvVerityInit part ok) s5
                                in if \<not> ok then Inr (Cleanup env kVerityCalculationError s6)
                                   else Inl (AtSchedule, s6))
                             else Inl (AtSchedule, s5))))))"
| "body env AtSchedule s =
    (let bytes_to_read = min (word_of_nat (buffer s)) (filesystem_data_end s - offset s)
     in if bytes_to_read = 0 then Inl (AtReadVerity, s)
        else if partition_fd s = None then Inr (crash s)
        else
          (let s1 = Seek (offset s) s;
               r = Read env (unat bytes_to_read) s1;
               bytes_read = fst r;
               s2 = snd r
           in if bytes_read < 0 then Inr (Cleanup env kError s2)
              else Inr (emit (EvPostTask (nat bytes_read))
                     (s2\<lparr>pending_task := Some (nat bytes_read)\<rparr>))))"
| "body env AtReadVerity s =
    (if partition_index s \<ge> length (partitions (install_plan s)) then Inr (crash s)
     else
       (let finalized = (if ShouldWriteVerity s
                         then Some (verity_Finalize env (now s)) else None);
            s1 = (case finalized of
                    None \<Rightarrow> s
                  | Some ok \<Rightarrow>
                      emit (EvVerityFinalize ok)
                        (s\<lparr>partition_fd :=
                             map_option (\<lambda>_. verity_Finalize_pos env (now s))
                               (partition_fd s)\<rparr>))
        in if finalized = Some False then Inr (Cleanup env kFilesystemVerifierError s1)
           else if partition_fd s1 = None then Inr (crash s1)
           else
             (let s2 = Seek (filesystem_data_end s1) s1;
                  r = read_rest env (partition_size s2 - filesystem_data_end s2) s2
              in case fst r of
                   Some code \<Rightarrow> Inr (Cleanup env code (snd r))
                 | None \<Rightarrow> Inl (AtFinish, snd r))))"
| "body env AtFinish s =
    (let ok = hasher_Finalize env (now s);
         s1 = emit (EvHasherFinalize ok) s
     in if \<not> ok then Inr (Cleanup env kError s1)
        else if partition_index s1 \<ge> length (partitions (install_plan s1)) then Inr (crash s1)
        else
          (let part = partitions (install_plan s1) ! partition_index s1
           in case verifier_step s1 of
                kVerifyTargetHash \<Rightarrow>
                  (if target_hash part \<noteq> raw_hash env (now s1) then
                     (if source_hash part = [] then
                        Inr (Cleanup env kNewRootfsVerificationError s1)
                      else
                        Inl (AtStart,
                          (s1\<lparr>verifier_step := kVerifySourceHash,
                               buffer := 0, partition_fd := None\<rparr>)))
                   else
                     Inl (AtStart,
                       (s1\<lparr>partition_index := partition_index s1 + 1,
                            buffer := 0, partition_fd := None\<rparr>)))
              | kVerifySourceHash \<Rightarrow>
                  (if source_hash part \<noteq> raw_hash env (now s1) then
                     Inr (Cleanup env kDownloadStateInitializationError s1)
                   else Inr (Cleanup env kNewRootfsVerificationError s1))))"
| "body env (AtOnReadDone bytes_read) s =
    (if cancelled s then Inr (Cleanup env kError s)
     else if bytes_read = 0 then Inr (Cleanup env kFilesystemVerifierError s)
     else
       (let ok = hasher_Update env (now s) bytes_read;
            s1 = emit (EvHasherUpdate bytes_read ok) s
        in if \<not> ok then Inr (Cleanup env kError s1)
           else
             (let s2 = UpdateProgress
                         (progress_value (offset s1) (partition_size s1) (partition_index s1)
                            (length (partitions (install_plan s1)))) s1
              in if partition_index s2 \<ge> length (partitions (install_plan s2))
                 then Inr (crash s2)
                 else
                   (let updated = (if ShouldWriteVerity s2
                                   then Some (verity_Update env (now s2) (offset s2) bytes_read)
                                   else None);
                        s3 = (case updated of
                                None \<Rightarrow> s2
                              | Some uok \<Rightarrow> emit (EvVerityUpdate (offset s2) bytes_read uok) s2)
                    in if updated = Some False
                       then Inr (Cleanup env kVerityCalculationError s3)
                       else
                         (let s4 = s3\<lparr>offset := offset s3 + word_of_nat bytes_read\<rparr>
                          in if offset s4 = filesystem_data_end s4
                             then Inl (AtReadVerity, s4)
                             else Inl (AtSchedule, s4))))))"
| "body env (AtPerformAction input_object) s =
    (case input_object of
       None \<Rightarrow> Inr (emit (EvActionComplete kError) s)
     | Some plan \<Rightarrow>
         (let s1 = s\<lparr>install_plan := plan\<rparr>
          in if partitions (install_plan s1) = [] then
               (let s2 = (if out_pipe s1
                          then emit (EvSetOutputObject (install_plan s1)) s1 else s1)
                in Inr (emit (EvActionComplete kSuccess) s2))
             else Inl (AtStart, s1)))"

declare body.simps [simp del]

text \<open>The measure that every step of the machine decreases.\<close>

fun steps_left :: "pc \<Rightarrow> verifier \<Rightarrow> nat" where
  "steps_left AtStart s = 5 * passes_left s + 3"
| "steps_left AtSchedule s = 5 * passes_left s + 2"
| "steps_left AtReadVerity s = 5 * passes_left s + 1"
| "steps_left AtFinish s = 5 * passes_left s"
| "steps_left (AtOnReadDone bytes_read) s = 5 * passes_left s + 4"
| "steps_left (AtPerformAction input_object) s =
    (case input_object of
       None \<Rightarrow> 0
     | Some plan \<Rightarrow> 5 * passes_left (s\<lparr>install_plan := plan\<rparr>) + 4)"

section \<open>Observations and examples\<close>

text \<open>
  The terminal outcome just delivered: the code of \<^verbatim>\<open>ActionComplete\<close> when that is the
  latest event.
\<close>

definition outcome :: "verifier \<Rightarrow> ErrorCode option" where
  "outcome s = (case trace s of EvActionComplete code # _ \<Rightarrow> Some code | _ \<Rightarrow> None)"

text \<open>An environment in which every call succeeds and every read is complete.\<close>

definition env_ok :: env where
  "env_ok =
    \<lparr>UpdateUsesSnapshotCompression = (\<lambda>_. False),
     IsDynamicPartition = (\<lambda>_ _ _. False),
     OpenCowFd = (\<lambda>_ _ _. True),
     VerifyExtentsForUntouchedPartitions = (\<lambda>_ _ _ _. True),
     SetBlockDeviceReadOnly = (\<lambda>_ _ _. True),
     fd_Open = (\<lambda>_ _ _. True),
     fd_Read = (\<lambda>_ count. int count),
     verity_Init = (\<lambda>_ _. True),
     verity_Update = (\<lambda>_ _ _. True),
     verity_Finalize = (\<lambda>_. True),
     verity_Finalize_pos = (\<lambda>_. 0),
     hasher_Update = (\<lambda>_ _. True),
     hasher_Finalize = (\<lambda>_. True),
     raw_hash = (\<lambda>_. [0xAD, 0x7F])\<rparr>"

definition system_partition :: Partition where
  "system_partition =
    \<lparr>name = ''system'',
     source_path = ''/dev/block/system_a'', source_size = 4096, source_hash = [],
     target_path = ''/dev/block/system_b'', readonly_target_path = ''/dev/block/system_ro'',
     target_size = 4096, target_hash = [0xAD, 0x7F],
     hash_tree_offset = 0, hash_tree_size = 0, fec_offset = 0, fec_size = 0\<rparr>"

definition plan_of :: "Partition list \<Rightarrow> InstallPlan" where
  "plan_of ps =
    \<lparr>source_slot = 0, target_slot = 1, write_verity = False, partitions = ps,
     untouched_dynamic_partitions = []\<rparr>"

definition hashed :: "VerifierStep \<Rightarrow> Partition \<Rightarrow> verifier" where
  "hashed step part =
    (new_action True True)
      \<lparr>install_plan := plan_of [part], verifier_step := step, partition_fd := Some 4096,
       buffer := kReadFileBufferSize, partition_size := 4096, offset := 4096,
       filesystem_data_end := 4096\<rparr>"

text \<open>
  The filesystem data end in the specification's words: the least of the hash tree offset
  (if positive), the FEC offset (if positive) and the partition size.
\<close>

definition spec_filesystem_data_end :: "Partition \<Rightarrow> 64 word \<Rightarrow> 64 word" where
  "spec_filesystem_data_end part psize =
    fold min (filter (\<lambda>off. off > 0) [hash_tree_offset part, fec_offset part]) psize"

text \<open>The partition size a step resolves: the source size or the target size.\<close>

definition step_size :: "VerifierStep \<Rightarrow> Partition \<Rightarrow> 64 word" where
  "step_size step part =
    (case step of kVerifySourceHash \<Rightarrow> source_size part | kVerifyTargetHash \<Rightarrow> target_size part)"

text \<open>A partition with a hash tree and FEC data, smaller on the source slot.\<close>

definition verity_partition :: Partition where
  "verity_partition =
    \<lparr>name = ''vendor'',
     source_path = ''/dev/block/vendor_a'', source_size = 4096, source_hash = [1],
     target_path = ''/dev/block/vendor_b'', readonly_target_path = ''/dev/block/vendor_ro'',
     target_size = 16384, target_hash = [0],
     hash_tree_offset = 8192, hash_tree_size = 4096, fec_offset = 12288, fec_size = 4096\<rparr>"

text \<open>The events of a read: the read itself and the hasher update that follows it.\<close>

definition reading :: "event \<Rightarrow> bool" where
  "reading e = (case e of EvRead _ _ _ \<Rightarrow> True | EvHasherUpdate _ _ \<Rightarrow> True | _ \<Rightarrow> False)"

text \<open>An event that forwards a plan forwards this plan.\<close>

definition output_is :: "InstallPlan \<Rightarrow> event \<Rightarrow> bool" where
  "output_is plan e = (case e of EvSetOutputObject p \<Rightarrow> p = plan | _ \<Rightarrow> True)"

text \<open>
  What holds between the turns of a run on \<open>plan\<close>: the plan is held unchanged, every
  plan forwarded is this plan, and a success with an output pipe has forwarded it.
\<close>

definition forwards :: "InstallPlan \<Rightarrow> bool \<Rightarrow> verifier \<Rightarrow> bool" where
  "forwards plan has_out_pipe s =
    (install_plan s = plan \<and> out_pipe s = has_out_pipe \<and>
     list_all (output_is plan) (trace s) \<and>
     (EvActionComplete kSuccess \<in> set (trace s) \<and> has_out_pipe \<longrightarrow>
        EvSetOutputObject plan \<in> set (trace s)))"

definition forwards_pre :: "InstallPlan \<Rightarrow> bool \<Rightarrow> pc \<Rightarrow> verifier \<Rightarrow> bool" where
  "forwards_pre plan has_out_pipe pc s =
    (case pc of
       AtPerformAction input_object \<Rightarrow>
         input_object = Some plan \<and> trace s = [] \<and> out_pipe s = has_out_pipe
     | _ \<Rightarrow> forwards plan has_out_pipe s)"

text \<open>An event that neither forwards a plan nor completes the action.\<close>

definition benign :: "event \<Rightarrow> bool" where
  "benign e = (case e of EvSetOutputObject _ \<Rightarrow> False | EvActionComplete _ \<Rightarrow> False | _ \<Rightarrow> True)"

text \<open>
  Reading a trace from its newest event back, \<open>following\<close> keeps the completion code that
  comes after an event with nothing in between but what \<open>Cleanup\<close> itself does before
  completing (unmapping the partitions, the final progress update).
\<close>

definition following :: "ErrorCode option \<Rightarrow> event \<Rightarrow> ErrorCode option" where
  "following nxt e =
    (case e of
       EvActionComplete code \<Rightarrow> Some code
     | EvProgress _ \<Rightarrow> nxt
     | EvUnmapAllPartitions \<Rightarrow> nxt
     | _ \<Rightarrow> None)"

text \<open>
  \<open>answered demand nxt tr\<close>: every event of the trace \<open>tr\<close> (newest first) that demands a
  completion code is directly followed by the cleanup and the completion with that code.
\<close>

fun answered :: "(event \<Rightarrow> ErrorCode option) \<Rightarrow> ErrorCode option \<Rightarrow> event list \<Rightarrow> bool" where
  "answered demand nxt [] = True"
| "answered demand nxt (e # es) =
    ((case demand e of None \<Rightarrow> True | Some code \<Rightarrow> nxt = Some code) \<and>
     answered demand (following nxt e) es)"

text \<open>The completion code that a failed call of the verity writer demands.\<close>

definition verity_demand :: "event \<Rightarrow> ErrorCode option" where
  "verity_demand e =
    (case e of
       EvVerityInit _ ok \<Rightarrow> if ok then None else Some kVerityCalculationError
     | EvVerityUpdate _ _ ok \<Rightarrow> if ok then None else Some kVerityCalculationError
     | EvVerityFinalize ok \<Rightarrow> if ok then None else Some kFilesystemVerifierError
     | _ \<Rightarrow> None)"

text \<open>The completion code that a failed extent check demands.\<close>

definition extents_demand :: "event \<Rightarrow> ErrorCode option" where
  "extents_demand e =
    (case e of
       EvVerifyExtents _ _ _ ok \<Rightarrow> if ok then None else Some kFilesystemVerifierError
     | _ \<Rightarrow> None)"

text \<open>A demand that only the result of a verity or extent call can make, and never for success.\<close>

definition modest :: "(event \<Rightarrow> ErrorCode option) \<Rightarrow> bool" where
  "modest demand =
    (\<forall>e. demand e \<noteq> Some kSuccess \<and>
      (demand e \<noteq> None \<longrightarrow>
        (case e of
           EvVerityInit _ _ \<Rightarrow> True
         | EvVerityUpdate _ _ _ \<Rightarrow> True
         | EvVerityFinalize _ \<Rightarrow> True
         | EvVerifyExtents _ _ _ _ \<Rightarrow> True
         | _ \<Rightarrow> False)))"

text \<open>
  The property of the states of a run: every demand made so far has been answered. While
  one of the hashing functions runs, the action has not been cancelled.
\<close>

definition heeded :: "(event \<Rightarrow> ErrorCode option) \<Rightarrow> verifier \<Rightarrow> bool" where
  "heeded demand s = answered demand None (trace s)"

definition heeded_pre :: "(event \<Rightarrow> ErrorCode option) \<Rightarrow> pc \<Rightarrow> verifier \<Rightarrow> bool" where
  "heeded_pre demand pc s =
    (heeded demand s \<and> (case pc of AtOnReadDone _ \<Rightarrow> True | _ \<Rightarrow> \<not> cancelled s))"

text \<open>Every event recorded so far satisfies \<open>P\<close>.\<close>

definition only :: "(event \<Rightarrow> bool) \<Rightarrow> verifier \<Rightarrow> bool" where
  "only P s = list_all P (trace s)"

text \<open>
  The events that every pass may produce: all but the extent check, the forwarding of
  the plan, the completion and the cancellation.
\<close>

definition routine :: "event \<Rightarrow> bool" where
  "routine e =
    (case e of
       EvVerifyExtents _ _ _ _ \<Rightarrow> False
     | EvSetOutputObject _ \<Rightarrow> False
     | EvActionComplete _ \<Rightarrow> False
     | EvCancelTask \<Rightarrow> False
     | _ \<Rightarrow> True)"

text \<open>A plan that has the verity data of its partition written by this stage.\<close>

definition verity_plan :: InstallPlan where
  "verity_plan = (plan_of [verity_partition])\<lparr>write_verity := True\<rparr>"

text \<open>
  The environment of \<open>env_ok\<close> with a source device that ends at byte 8192: in the run
  below the first 20 events take the reads up to that byte, and a read after them finds
  the end of the device.
\<close>

definition env_source_ends :: env where
  "env_source_ends = env_ok\<lparr>fd_Read := \<lambda>t count. if t < 20 then int count else 0\<rparr>"

text \<open>
  An environment with snapshot compression, every partition dynamic, and an extent
  check that fails.
\<close>

definition env_snapshot :: env where
  "env_snapshot =
    env_ok\<lparr>UpdateUsesSnapshotCompression := \<lambda>_. True,
           IsDynamicPartition := \<lambda>_ _ _. True,
           VerifyExtentsForUntouchedPartitions := \<lambda>_ _ _ _. False\<rparr>"

text \<open>A plan without partitions that names an untouched dynamic partition.\<close>

definition empty_plan :: InstallPlan where
  "empty_plan = (plan_of [])\<lparr>untouched_dynamic_partitions := [''vendor'']\<rparr>"

text \<open>What a cancelled action still does: it cancels its task and unmaps the partitions.\<close>

definition cancelling :: "event \<Rightarrow> bool" where
  "cancelling e = (case e of EvCancelTask \<Rightarrow> True | EvUnmapAllPartitions \<Rightarrow> True | _ \<Rightarrow> False)"

text \<open>The state of a cancelled action: flagged, no task pending, descriptor and buffer released.\<close>

definition stopped :: "verifier \<Rightarrow> bool" where
  "stopped s = (cancelled s \<and> pending_task s = None \<and> partition_fd s = None \<and> buffer s = 0)"

text \<open>The device path a step resolves: the source path or the target path.\<close>

definition step_path :: "VerifierStep \<Rightarrow> Partition \<Rightarrow> string" where
  "step_path step part =
    (case step of kVerifySourceHash \<Rightarrow> source_path part | kVerifyTargetHash \<Rightarrow> target_path part)"

text \<open>
  The descriptor of the partition comes from the dynamic partition control: snapshot
  compression is in use, the step is the target step and the partition is dynamic in the
  target slot.
\<close>

definition opened_by_snapshot :: "env \<Rightarrow> verifier \<Rightarrow> bool" where
  "opened_by_snapshot env s =
    (UpdateUsesSnapshotCompression env (now s) \<and>
     verifier_step s = kVerifyTargetHash \<and>
     IsDynamicPartition env (now s) (name (partitions (install_plan s) ! partition_index s))
       (target_slot (install_plan s)))"

text \<open>A partition without device paths, of the given target size.\<close>

definition pathless :: "64 word \<Rightarrow> Partition" where
  "pathless sz = system_partition\<lparr>source_path := [], target_path := [], target_size := sz\<rparr>"

section \<open>Basic facts\<close>

lemma emit_simps [simp]:
  "trace (emit e s) = e # trace s"
  "install_plan (emit e s) = install_plan s"
  "verifier_step (emit e s) = verifier_step s"
  "partition_index (emit e s) = partition_index s"
  "partition_fd (emit e s) = partition_fd s"
  "buffer (emit e s) = buffer s"
  "cancelled (emit e s) = cancelled s"
  "partition_size (emit e s) = partition_size s"
  "offset (emit e s) = offset s"
  "filesystem_data_end (emit e s) = filesystem_data_end s"
  "delegate (emit e s) = delegate s"
  "out_pipe (emit e s) = out_pipe s"
  "pending_task (emit e s) = pending_task s"
  "crashed (emit e s) = crashed s"
  by (simp_all add: emit_def)

lemma now_emit [simp]: "now (emit e s) = Suc (now s)"
  by (simp add: now_def)

lemma outcome_Cleanup: "\<not> cancelled s \<Longrightarrow> outcome (Cleanup env code s) = Some code"
  by (simp add: Cleanup_def Let_def outcome_def)

lemma hashed_simps:
  "install_plan (hashed step part) = plan_of [part]"
  "partition_index (hashed step part) = 0"
  "verifier_step (hashed step part) = step"
  "cancelled (hashed step part) = False"
  "now (hashed step part) = 0"
  by (simp_all add: hashed_def new_action_def now_def)

lemma case_sum_distrib:
  "case_sum f g (if c then a else b) = (if c then case_sum f g a else case_sum f g b)"
  "case_sum f g (Let x h) = (let y = x in case_sum f g (h y))"
  "case_sum f g (case opt of None \<Rightarrow> a | Some v \<Rightarrow> k v) =
     (case opt of None \<Rightarrow> case_sum f g a | Some v \<Rightarrow> case_sum f g (k v))"
  "case_sum f g (case st of kVerifySourceHash \<Rightarrow> a | kVerifyTargetHash \<Rightarrow> b) =
     (case st of kVerifySourceHash \<Rightarrow> case_sum f g a | kVerifyTargetHash \<Rightarrow> case_sum f g b)"
  by (simp_all split: option.split VerifierStep.split)

lemma exec_unfold:
  "exec env pc s = (case body env pc s of Inr r \<Rightarrow> r | Inl (pc', s') \<Rightarrow> exec env pc' s')"
proof (cases pc)
  case AtStart
  show ?thesis unfolding AtStart
    by (subst exec.simps, subst StartPartitionHashing.simps)
      (simp only: body.simps case_sum_distrib sum.case prod.case exec.simps)
next
  case AtSchedule
  show ?thesis unfolding AtSchedule
    by (subst exec.simps, subst ScheduleFileSystemRead.simps)
      (simp only: body.simps case_sum_distrib sum.case prod.case exec.simps)
next
  case AtReadVerity
  show ?thesis unfolding AtReadVerity
    by (subst exec.simps, subst ReadVerityAndFooter.simps)
      (simp only: body.simps case_sum_distrib sum.case prod.case exec.simps)
next
  case AtFinish
  show ?thesis unfolding AtFinish
    by (subst exec.simps, subst FinishPartitionHashing.simps)
      (simp only: body.simps case_sum_distrib sum.case prod.case exec.simps)
next
  case (AtOnReadDone bytes_read)
  show ?thesis unfolding AtOnReadDone
    by (subst exec.simps, subst OnReadDone_def)
      (simp only: body.simps case_sum_distrib sum.case prod.case exec.simps)
next
  case (AtPerformAction input_object)
  show ?thesis unfolding AtPerformAction
    by (subst exec.simps, subst PerformAction_def)
      (simp only: body.simps case_sum_distrib sum.case prod.case exec.simps)
qed

lemma body_decreases:
  assumes "body env pc s = Inl (pc', s')"
  shows "steps_left pc' s' < steps_left pc s"
proof (cases pc)
  case AtStart
  with assms show ?thesis
    by (auto simp add: body.simps Let_def passes_left_def InitializeFd_frame
        InitializeFdVABC_frame split: if_splits VerifierStep.splits)
next
  case AtSchedule
  with assms show ?thesis
    by (auto simp add: body.simps Let_def split: if_splits)
next
  case AtReadVerity
  with assms show ?thesis
    by (auto simp add: body.simps Let_def passes_left_def Seek_def read_rest_frame
        split: if_splits option.splits)
next
  case AtFinish
  with assms show ?thesis
    by (auto simp add: body.simps Let_def passes_left_def
        split: if_splits VerifierStep.splits)
next
  case (AtOnReadDone bytes_read)
  with assms show ?thesis
    by (auto simp add: body.simps Let_def passes_left_def UpdateProgress_def
        split: if_splits option.splits)
next
  case (AtPerformAction input_object)
  with assms show ?thesis
    by (auto simp add: body.simps Let_def split: if_splits option.splits)
qed

lemma exec_rule:
  assumes step: "\<And>pc s. Pre pc s \<Longrightarrow>
      (case body env pc s of Inr r \<Rightarrow> Post r | Inl (pc', s') \<Rightarrow> Pre pc' s')"
  shows "Pre pc s \<Longrightarrow> Post (exec env pc s)"
proof (induction "steps_left pc s" arbitrary: pc s rule: less_induct)
  case less
  show ?case
  proof (cases "body env pc s")
    case (Inr r)
    with step [OF less.prems] show ?thesis
      by (subst exec_unfold) simp
  next
    case (Inl a)
    obtain pc' s' where a: "a = (pc', s')" by (cases a)
    from step [OF less.prems] Inl a have "Pre pc' s'" by simp
    moreover have "steps_left pc' s' < steps_left pc s"
      using Inl a by (simp add: body_decreases)
    ultimately have "Post (exec env pc' s')" by (rule less.hyps [rotated])
    with Inl a show ?thesis
      by (subst exec_unfold) simp
  qed
qed

text \<open>
  The rule for whole runs: a property \<open>Post\<close> of the states between turns holds after
  every run if the fresh action satisfies the precondition of \<open>PerformAction\<close>, every
  step hands the precondition on or ends in \<open>Post\<close>, a pending task starts from the
  precondition of \<open>OnReadDone\<close>, and cancelling keeps \<open>Post\<close>.
\<close>

lemma turns_rule:
  assumes step: "\<And>pc s. Pre pc s \<Longrightarrow>
      (case body env pc s of Inr r \<Rightarrow> Post r | Inl (pc', s') \<Rightarrow> Pre pc' s')"
    and task: "\<And>s n. Post s \<Longrightarrow> \<not> crashed s \<Longrightarrow> pending_task s = Some n \<Longrightarrow>
      Pre (AtOnReadDone n) (s\<lparr>pending_task := None\<rparr>)"
    and cancel: "\<And>s. Post s \<Longrightarrow> \<not> crashed s \<Longrightarrow> Post (TerminateProcessing env s)"
  shows "Post s \<Longrightarrow> Post (turns env ts s)"
proof (induction ts arbitrary: s)
  case Nil
  then show ?case by simp
next
  case (Cons t ts)
  have "Post (take_turn env t s)"
  proof (cases "crashed s")
    case True
    with Cons.prems show ?thesis by (simp add: take_turn_def)
  next
    case False
    show ?thesis
    proof (cases t)
      case RunTask
      show ?thesis
      proof (cases "pending_task s")
        case None
        with Cons.prems False RunTask show ?thesis
          by (simp add: take_turn_def run_pending_def)
      next
        case (Some n)
        have "Post (exec env (AtOnReadDone n) (s\<lparr>pending_task := None\<rparr>))"
        proof (rule exec_rule [where Pre = Pre and Post = Post])
          show "Pre (AtOnReadDone n) (s\<lparr>pending_task := None\<rparr>)"
            by (rule task [OF Cons.prems False Some])
        qed (rule step)
        with False RunTask Some show ?thesis
          by (simp add: take_turn_def run_pending_def)
      qed
    next
      case Cancel
      with cancel [OF Cons.prems False] False show ?thesis
        by (simp add: take_turn_def)
    qed
  qed
  then show ?case by (simp add: Cons.IH)
qed

lemma run_rule:
  assumes step: "\<And>pc s. Pre pc s \<Longrightarrow>
      (case body env pc s of Inr r \<Rightarrow> Post r | Inl (pc', s') \<Rightarrow> Pre pc' s')"
    and task: "\<And>s n. Post s \<Longrightarrow> \<not> crashed s \<Longrightarrow> pending_task s = Some n \<Longrightarrow>
      Pre (AtOnReadDone n) (s\<lparr>pending_task := None\<rparr>)"
    and cancel: "\<And>s. Post s \<Longrightarrow> \<not> crashed s \<Longrightarrow> Post (TerminateProcessing env s)"
    and init: "Pre (AtPerformAction input_object) (new_action has_delegate has_out_pipe)"
  shows "Post (run env has_delegate has_out_pipe input_object ts)"
proof -
  have "Post (exec env (AtPerformAction input_object) (new_action has_delegate has_out_pipe))"
  proof (rule exec_rule [where Pre = Pre and Post = Post])
    show "Pre (AtPerformAction input_object) (new_action has_delegate has_out_pipe)"
      by (rule init)
  qed (rule step)
  then have "Post (PerformAction env input_object (new_action has_delegate has_out_pipe))"
    by simp
  then show ?thesis
    unfolding run_def
  proof (rule turns_rule [where Pre = Pre and Post = Post, rotated 3])
    show "\<And>pc s. Pre pc s \<Longrightarrow>
      (case body env pc s of Inr r \<Rightarrow> Post r | Inl (pc', s') \<Rightarrow> Pre pc' s')"
      by (rule step)
  qed (rule task, assumption+, rule cancel, assumption+)
qed

text \<open>Unfolding a run on a concrete plan.\<close>

lemmas run_eval =
  run_def PerformAction_def new_action_def take_turn_def run_pending_def OnReadDone_def
  StartPartitionHashing.simps ScheduleFileSystemRead.simps ReadVerityAndFooter.simps
  FinishPartitionHashing.simps read_rest.simps InitializeFd_def InitializeFdVABC_def
  ShouldWriteVerity_def Seek_def Read_def Cleanup_def UpdateProgress_def TerminateProcessing_def
  progress_value_def double_div_def kReadFileBufferSize_def emit_def now_def crash_def Let_def

lemma now_update [simp]:
  "now (install_plan_update f0 s) = now s"
  "now (verifier_step_update f1 s) = now s"
  "now (partition_index_update f2 s) = now s"
  "now (partition_fd_update f3 s) = now s"
  "now (buffer_update f4 s) = now s"
  "now (cancelled_update f5 s) = now s"
  "now (partition_size_update f6 s) = now s"
  "now (offset_update f7 s) = now s"
  "now (filesystem_data_end_update f8 s) = now s"
  "now (delegate_update f9 s) = now s"
  "now (out_pipe_update f10 s) = now s"
  "now (pending_task_update f11 s) = now s"
  "now (crashed_update f12 s) = now s"
  "now (trace_update g s) = length (g (trace s))"
  by (simp_all add: now_def)

lemma crash_simps [simp]:
  "trace (crash s) = trace s"
  "now (crash s) = now s"
  "install_plan (crash s) = install_plan s"
  "out_pipe (crash s) = out_pipe s"
  "delegate (crash s) = delegate s"
  "cancelled (crash s) = cancelled s"
  "pending_task (crash s) = None"
  "crashed (crash s) = True"
  by (simp_all add: crash_def)

lemma UpdateProgress_simps [simp]:
  "trace (UpdateProgress p s) = (if delegate s then EvProgress p # trace s else trace s)"
  "install_plan (UpdateProgress p s) = install_plan s"
  "verifier_step (UpdateProgress p s) = verifier_step s"
  "partition_index (UpdateProgress p s) = partition_index s"
  "partition_fd (UpdateProgress p s) = partition_fd s"
  "buffer (UpdateProgress p s) = buffer s"
  "cancelled (UpdateProgress p s) = cancelled s"
  "partition_size (UpdateProgress p s) = partition_size s"
  "offset (UpdateProgress p s) = offset s"
  "filesystem_data_end (UpdateProgress p s) = filesystem_data_end s"
  "delegate (UpdateProgress p s) = delegate s"
  "out_pipe (UpdateProgress p s) = out_pipe s"
  "pending_task (UpdateProgress p s) = pending_task s"
  "crashed (UpdateProgress p s) = crashed s"
  by (simp_all add: UpdateProgress_def)

lemma Cleanup_trace:
  "trace (Cleanup env code s) =
    (if cancelled s then []
     else EvActionComplete code #
          (if delegate s then [EvProgress (Finite 1)] else []) @
          (if code = kSuccess \<and> out_pipe s then [EvSetOutputObject (install_plan s)] else [])) @
    (if \<not> write_verity (install_plan s) \<and> UpdateUsesSnapshotCompression env (now s)
     then [EvUnmapAllPartitions] else []) @
    trace s"
  by (simp add: Cleanup_def Let_def now_def)

lemma Cleanup_simps [simp]:
  "install_plan (Cleanup env code s) = install_plan s"
  "verifier_step (Cleanup env code s) = verifier_step s"
  "partition_index (Cleanup env code s) = partition_index s"
  "partition_fd (Cleanup env code s) = None"
  "buffer (Cleanup env code s) = 0"
  "cancelled (Cleanup env code s) = cancelled s"
  "partition_size (Cleanup env code s) = partition_size s"
  "offset (Cleanup env code s) = offset s"
  "filesystem_data_end (Cleanup env code s) = filesystem_data_end s"
  "delegate (Cleanup env code s) = delegate s"
  "out_pipe (Cleanup env code s) = out_pipe s"
  "pending_task (Cleanup env code s) = pending_task s"
  "crashed (Cleanup env code s) = crashed s"
  by (simp_all add: Cleanup_def Let_def)

lemma InitializeFd_trace:
  "trace (snd (InitializeFd env p s)) =
    [EvOpen p (ShouldWriteVerity s) (fst (InitializeFd env p s)),
     EvSetBlockDeviceReadOnly p (\<not> ShouldWriteVerity s)
       (SetBlockDeviceReadOnly env (now s) p (\<not> ShouldWriteVerity s))] @ trace s"
  by (simp add: InitializeFd_def Let_def ShouldWriteVerity_def)

lemma InitializeFd_simps [simp]:
  "install_plan (snd (InitializeFd env p s)) = install_plan s"
  "verifier_step (snd (InitializeFd env p s)) = verifier_step s"
  "partition_index (snd (InitializeFd env p s)) = partition_index s"
  "partition_fd (snd (InitializeFd env p s)) = Some 0"
  "buffer (snd (InitializeFd env p s)) = buffer s"
  "cancelled (snd (InitializeFd env p s)) = cancelled s"
  "partition_size (snd (InitializeFd env p s)) = partition_size s"
  "offset (snd (InitializeFd env p s)) = offset s"
  "filesystem_data_end (snd (InitializeFd env p s)) = filesystem_data_end s"
  "delegate (snd (InitializeFd env p s)) = delegate s"
  "out_pipe (snd (InitializeFd env p s)) = out_pipe s"
  "pending_task (snd (InitializeFd env p s)) = pending_task s"
  "crashed (snd (InitializeFd env p s)) = crashed s"
  by (simp_all add: InitializeFd_def Let_def)

lemma InitializeFdVABC_trace:
  "trace (snd (InitializeFdVABC env s)) =
    (let part = partitions (install_plan s) ! partition_index s
     in if \<not> ShouldWriteVerity s then
          [EvOpen (readonly_target_path part) False (fst (InitializeFdVABC env s)),
           EvSetBlockDeviceReadOnly (readonly_target_path part) True
             (SetBlockDeviceReadOnly env (Suc (Suc (now s))) (readonly_target_path part) True),
           EvMapAllPartitions, EvUnmapAllPartitions] @ trace s
        else EvOpenCowFd (name part) (source_path part) (fst (InitializeFdVABC env s)) # trace s)"
  by (simp add: InitializeFdVABC_def InitializeFd_def Let_def ShouldWriteVerity_def)

lemma InitializeFdVABC_simps [simp]:
  "install_plan (snd (InitializeFdVABC env s)) = install_plan s"
  "verifier_step (snd (InitializeFdVABC env s)) = verifier_step s"
  "partition_index (snd (InitializeFdVABC env s)) = partition_index s"
  "buffer (snd (InitializeFdVABC env s)) = buffer s"
  "cancelled (snd (InitializeFdVABC env s)) = cancelled s"
  "offset (snd (InitializeFdVABC env s)) = offset s"
  "filesystem_data_end (snd (InitializeFdVABC env s)) = filesystem_data_end s"
  "delegate (snd (InitializeFdVABC env s)) = delegate s"
  "out_pipe (snd (InitializeFdVABC env s)) = out_pipe s"
  "pending_task (snd (InitializeFdVABC env s)) = pending_task s"
  "crashed (snd (InitializeFdVABC env s)) = crashed s"
  by (simp_all add: InitializeFdVABC_def Let_def)

lemma Seek_simps [simp]:
  "trace (Seek pos s) = EvSeek pos # trace s"
  "install_plan (Seek pos s) = install_plan s"
  "verifier_step (Seek pos s) = verifier_step s"
  "partition_index (Seek pos s) = partition_index s"
  "partition_fd (Seek pos s) = Some pos"
  "buffer (Seek pos s) = buffer s"
  "cancelled (Seek pos s) = cancelled s"
  "partition_size (Seek pos s) = partition_size s"
  "offset (Seek pos s) = offset s"
  "filesystem_data_end (Seek pos s) = filesystem_data_end s"
  "delegate (Seek pos s) = delegate s"
  "out_pipe (Seek pos s) = out_pipe s"
  "pending_task (Seek pos s) = pending_task s"
  "crashed (Seek pos s) = crashed s"
  by (simp_all add: Seek_def)

lemma Read_trace:
  "trace (snd (Read env count s)) =
    EvRead (case partition_fd s of None \<Rightarrow> 0 | Some p \<Rightarrow> p) count (fst (Read env count s)) # trace s"
  by (simp add: Read_def Let_def)

lemma Read_simps [simp]:
  "install_plan (snd (Read env count s)) = install_plan s"
  "verifier_step (snd (Read env count s)) = verifier_step s"
  "partition_index (snd (Read env count s)) = partition_index s"
  "buffer (snd (Read env count s)) = buffer s"
  "cancelled (snd (Read env count s)) = cancelled s"
  "partition_size (snd (Read env count s)) = partition_size s"
  "offset (snd (Read env count s)) = offset s"
  "filesystem_data_end (snd (Read env count s)) = filesystem_data_end s"
  "delegate (snd (Read env count s)) = delegate s"
  "out_pipe (snd (Read env count s)) = out_pipe s"
  "pending_task (snd (Read env count s)) = pending_task s"
  "crashed (snd (Read env count s)) = crashed s"
  by (simp_all add: Read_def Let_def)

lemma read_rest_fields:
  "install_plan (snd (read_rest env b s)) = install_plan s \<and>
   verifier_step (snd (read_rest env b s)) = verifier_step s \<and>
   partition_index (snd (read_rest env b s)) = partition_index s \<and>
   buffer (snd (read_rest env b s)) = buffer s \<and>
   cancelled (snd (read_rest env b s)) = cancelled s \<and>
   partition_size (snd (read_rest env b s)) = partition_size s \<and>
   offset (snd (read_rest env b s)) = offset s \<and>
   filesystem_data_end (snd (read_rest env b s)) = filesystem_data_end s \<and>
   delegate (snd (read_rest env b s)) = delegate s \<and>
   out_pipe (snd (read_rest env b s)) = out_pipe s \<and>
   pending_task (snd (read_rest env b s)) = pending_task s \<and>
   crashed (snd (read_rest env b s)) = crashed s"
proof (induction env b s rule: read_rest.induct)
  case (1 env b s)
  show ?case
    using 1 [OF _ refl refl refl refl _ refl refl]
    by (subst (1 2 3 4 5 6 7 8 9 10 11 12) read_rest.simps) (simp add: Let_def)
qed

lemmas read_rest_simps [simp] =
  read_rest_fields [THEN conjunct1]
  read_rest_fields [THEN conjunct2, THEN conjunct1]
  read_rest_fields [THEN conjunct2, THEN conjunct2, THEN conjunct1]
  read_rest_fields [THEN conjunct2, THEN conjunct2, THEN conjunct2, THEN conjunct1]
  read_rest_fields [THEN conjunct2, THEN conjunct2, THEN conjunct2, THEN conjunct2, THEN conjunct1]
  read_rest_fields [THEN conjunct2, THEN conjunct2, THEN conjunct2, THEN conjunct2, THEN conjunct2,
    THEN conjunct1]
  read_rest_fields [THEN conjunct2, THEN conjunct2, THEN conjunct2, THEN conjunct2, THEN conjunct2,
    THEN conjunct2, THEN conjunct1]
  read_rest_fields [THEN conjunct2, THEN conjunct2, THEN conjunct2, THEN conjunct2, THEN conjunct2,
    THEN conjunct2, THEN conjunct2, THEN conjunct1]
  read_rest_fields [THEN conjunct2, THEN conjunct2, THEN conjunct2, THEN conjunct2, THEN conjunct2,
    THEN conjunct2, THEN conjunct2, THEN conjunct2, THEN conjunct1]
  read_rest_fields [THEN conjunct2, THEN conjunct2, THEN conjunct2, THEN conjunct2, THEN conjunct2,
    THEN conjunct2, THEN conjunct2, THEN conjunct2, THEN conjunct2, THEN conjunct1]
  read_rest_fields [THEN conjunct2, THEN conjunct2, THEN conjunct2, THEN conjunct2, THEN conjunct2,
    THEN conjunct2, THEN conjunct2, THEN conjunct2, THEN conjunct2, THEN conjunct2, THEN conjunct1]
  read_rest_fields [THEN conjunct2, THEN conjunct2, THEN conjunct2, THEN conjunct2, THEN conjunct2,
    THEN conjunct2, THEN conjunct2, THEN conjunct2, THEN conjunct2, THEN conjunct2, THEN conjunct2]

lemma read_rest_trace:
  "\<exists>new. trace (snd (read_rest env b s)) = new @ trace s \<and> list_all reading new"
proof (induction env b s rule: read_rest.induct)
  case (1 env b s)
  show ?case
  proof (cases "b > 0 \<and> \<not> fst (Read env (min (buffer s) (unat b)) s) \<le> 0 \<and>
      hasher_Update env (now (snd (Read env (min (buffer s) (unat b)) s)))
        (nat (fst (Read env (min (buffer s) (unat b)) s)))")
    case True
    then obtain new where
      "trace (snd (read_rest env (b - word_of_int (fst (Read env (min (buffer s) (unat b)) s)))
         (emit (EvHasherUpdate (nat (fst (Read env (min (buffer s) (unat b)) s))) True)
           (snd (Read env (min (buffer s) (unat b)) s))))) =
       new @ EvHasherUpdate (nat (fst (Read env (min (buffer s) (unat b)) s))) True #
         trace (snd (Read env (min (buffer s) (unat b)) s))"
      and "list_all reading new"
      using 1 [OF _ refl refl refl refl _ refl refl] by auto
    with True show ?thesis
      by (subst read_rest.simps)
        (rule exI [of _ "new @ [EvHasherUpdate (nat (fst (Read env (min (buffer s) (unat b)) s))) True,
           EvRead (case partition_fd s of None \<Rightarrow> 0 | Some p \<Rightarrow> p) (min (buffer s) (unat b))
             (fst (Read env (min (buffer s) (unat b)) s))]"],
         simp add: Let_def Read_trace reading_def)
  next
    case False
    then show ?thesis
      by (subst read_rest.simps)
        (auto simp add: Let_def Read_trace reading_def
          intro: exI [of _ "[]"] exI [of _ "[EvRead p n r]" for p n r]
            exI [of _ "[EvHasherUpdate k False, EvRead p n r]" for k p n r])
  qed
qed

section \<open>Demands and their answers\<close>

lemma modest_verity: "modest verity_demand"
  unfolding modest_def
proof
  fix e
  show "verity_demand e \<noteq> Some kSuccess \<and>
    (verity_demand e \<noteq> None \<longrightarrow>
      (case e of EvVerityInit _ _ \<Rightarrow> True | EvVerityUpdate _ _ _ \<Rightarrow> True
       | EvVerityFinalize _ \<Rightarrow> True | EvVerifyExtents _ _ _ _ \<Rightarrow> True | _ \<Rightarrow> False))"
    by (cases e) (simp_all add: verity_demand_def)
qed

lemma modest_extents: "modest extents_demand"
  unfolding modest_def
proof
  fix e
  show "extents_demand e \<noteq> Some kSuccess \<and>
    (extents_demand e \<noteq> None \<longrightarrow>
      (case e of EvVerityInit _ _ \<Rightarrow> True | EvVerityUpdate _ _ _ \<Rightarrow> True
       | EvVerityFinalize _ \<Rightarrow> True | EvVerifyExtents _ _ _ _ \<Rightarrow> True | _ \<Rightarrow> False))"
    by (cases e) (simp_all add: extents_demand_def)
qed

lemma modest_NoneI:
  assumes "modest demand"
    and "case e of EvVerityInit _ _ \<Rightarrow> False | EvVerityUpdate _ _ _ \<Rightarrow> False
         | EvVerityFinalize _ \<Rightarrow> False | EvVerifyExtents _ _ _ _ \<Rightarrow> False | _ \<Rightarrow> True"
  shows "demand e = None"
proof -
  from assms(1) have "demand e \<noteq> None \<longrightarrow>
      (case e of EvVerityInit _ _ \<Rightarrow> True | EvVerityUpdate _ _ _ \<Rightarrow> True
       | EvVerityFinalize _ \<Rightarrow> True | EvVerifyExtents _ _ _ _ \<Rightarrow> True | _ \<Rightarrow> False)"
    by (simp add: modest_def)
  with assms(2) show ?thesis
    by (cases e) simp_all
qed

lemma modest_not_success: "modest demand \<Longrightarrow> demand e = Some code \<Longrightarrow> code \<noteq> kSuccess"
  unfolding modest_def by metis

lemma answered_weaken:
  "answered demand None tr \<Longrightarrow> answered demand nxt tr"
proof (induction tr arbitrary: nxt)
  case Nil
  then show ?case by simp
next
  case (Cons e es)
  from Cons.prems have d: "demand e = None"
    by (cases "demand e") simp_all
  from Cons.prems have rest: "answered demand (following None e) es"
    by simp
  have "answered demand (following nxt e) es"
  proof (cases "following nxt e = following None e")
    case True
    with rest show ?thesis by simp
  next
    case False
    then have "following None e = None"
      by (cases e) (simp_all add: following_def)
    with rest show ?thesis by (simp add: Cons.IH)
  qed
  with d show ?case by simp
qed

lemma heeded_update [simp]:
  "heeded demand (install_plan_update f0 s) = heeded demand s"
  "heeded demand (verifier_step_update f1 s) = heeded demand s"
  "heeded demand (partition_index_update f2 s) = heeded demand s"
  "heeded demand (partition_fd_update f3 s) = heeded demand s"
  "heeded demand (buffer_update f4 s) = heeded demand s"
  "heeded demand (cancelled_update f5 s) = heeded demand s"
  "heeded demand (partition_size_update f6 s) = heeded demand s"
  "heeded demand (offset_update f7 s) = heeded demand s"
  "heeded demand (filesystem_data_end_update f8 s) = heeded demand s"
  "heeded demand (delegate_update f9 s) = heeded demand s"
  "heeded demand (out_pipe_update f10 s) = heeded demand s"
  "heeded demand (pending_task_update f11 s) = heeded demand s"
  "heeded demand (crashed_update f12 s) = heeded demand s"
  by (simp_all add: heeded_def)

lemma heeded_events:
  assumes "heeded demand s" and "list_all (\<lambda>e. demand e = None) new"
    and "trace s' = new @ trace s"
  shows "heeded demand s'"
proof -
  have "answered demand nxt (new @ trace s)" for nxt
    using assms(2)
  proof (induction new arbitrary: nxt)
    case Nil
    with assms(1) show ?case by (simp add: heeded_def answered_weaken)
  next
    case (Cons e es)
    then show ?case by simp
  qed
  with assms(3) show ?thesis by (simp add: heeded_def)
qed

lemma heeded_emit:
  "heeded demand s \<Longrightarrow> demand e = None \<Longrightarrow> heeded demand (emit e s)"
  by (rule heeded_events [where new = "[e]"]) simp_all

lemma heeded_crash: "heeded demand s \<Longrightarrow> heeded demand (crash s)"
  by (simp add: heeded_def)

lemma heeded_Cleanup:
  assumes "modest demand" and "heeded demand s"
  shows "heeded demand (Cleanup env code s)"
  by (rule heeded_events [OF assms(2), where new = "
    (if cancelled s then []
     else EvActionComplete code #
          (if delegate s then [EvProgress (Finite 1)] else []) @
          (if code = kSuccess \<and> out_pipe s then [EvSetOutputObject (install_plan s)] else [])) @
    (if \<not> write_verity (install_plan s) \<and> UpdateUsesSnapshotCompression env (now s)
     then [EvUnmapAllPartitions] else [])"])
    (simp_all add: Cleanup_trace modest_NoneI [OF assms(1)])

lemma heeded_failed:
  assumes "modest demand" and "heeded demand s" and "\<not> cancelled s"
    and "demand e = None \<or> demand e = Some code"
  shows "heeded demand (Cleanup env code (emit e s))"
proof (cases "demand e")
  case None
  with assms(1,2) show ?thesis
    by (simp add: heeded_Cleanup heeded_emit)
next
  case (Some c)
  with assms(4) have e: "demand e = Some code" by simp
  have "code \<noteq> kSuccess"
    using assms(1) e by (rule modest_not_success)
  moreover have "answered demand None (trace s)"
    using assms(2) by (simp add: heeded_def)
  ultimately show ?thesis
    using assms(3) e
    by (simp add: heeded_def Cleanup_trace modest_NoneI [OF assms(1)] following_def
        answered_weaken)
qed

lemma heeded_UpdateProgress:
  assumes "modest demand" and "heeded demand s"
  shows "heeded demand (UpdateProgress p s)"
  using assms(2) by (simp add: UpdateProgress_def heeded_emit modest_NoneI [OF assms(1)])

lemma heeded_InitializeFd:
  assumes "modest demand" and "heeded demand s"
  shows "heeded demand (snd (InitializeFd env p s))"
  using assms(2)
  by (rule heeded_events [where new = "[_, _]"])
    (simp_all add: InitializeFd_trace modest_NoneI [OF assms(1)])

lemma heeded_InitializeFdVABC:
  assumes "modest demand" and "heeded demand s"
  shows "heeded demand (snd (InitializeFdVABC env s))"
  using assms(2)
  by (simp add: InitializeFdVABC_def Let_def heeded_InitializeFd [OF assms(1)] heeded_emit
      modest_NoneI [OF assms(1)])

lemma heeded_Seek:
  assumes "modest demand" and "heeded demand s"
  shows "heeded demand (Seek pos s)"
  using assms(2) by (simp add: Seek_def heeded_emit modest_NoneI [OF assms(1)])

lemma heeded_Read:
  assumes "modest demand" and "heeded demand s"
  shows "heeded demand (snd (Read env n s))"
  using assms(2)
  by (rule heeded_events [where new = "[_]"])
    (simp_all add: Read_trace modest_NoneI [OF assms(1)])

lemma reading_no_demand:
  assumes "modest demand" and "list_all reading new"
  shows "list_all (\<lambda>e. demand e = None) new"
proof -
  have "demand e = None" if "reading e" for e
    using that by (cases e) (simp_all add: reading_def modest_NoneI [OF assms(1)])
  with assms(2) show ?thesis
    by (simp add: list_all_iff)
qed

lemma heeded_read_rest:
  assumes "modest demand" and "heeded demand s"
  shows "heeded demand (snd (read_rest env b s))"
proof -
  obtain new where "trace (snd (read_rest env b s)) = new @ trace s" and "list_all reading new"
    using read_rest_trace [of env b s] by blast
  with assms show ?thesis
    by (blast intro: heeded_events reading_no_demand)
qed

lemmas heeded_intros =
  heeded_emit heeded_Cleanup heeded_failed heeded_crash heeded_UpdateProgress
  heeded_InitializeFd heeded_InitializeFdVABC heeded_Seek heeded_Read heeded_read_rest

lemma only_update [simp]:
  "only P (install_plan_update f0 s) = only P s"
  "only P (verifier_step_update f1 s) = only P s"
  "only P (partition_index_update f2 s) = only P s"
  "only P (partition_fd_update f3 s) = only P s"
  "only P (buffer_update f4 s) = only P s"
  "only P (cancelled_update f5 s) = only P s"
  "only P (partition_size_update f6 s) = only P s"
  "only P (offset_update f7 s) = only P s"
  "only P (filesystem_data_end_update f8 s) = only P s"
  "only P (delegate_update f9 s) = only P s"
  "only P (out_pipe_update f10 s) = only P s"
  "only P (pending_task_update f11 s) = only P s"
  "only P (crashed_update f12 s) = only P s"
  by (simp_all add: only_def)

lemma only_emit: "only P s \<Longrightarrow> P e \<Longrightarrow> only P (emit e s)"
  by (simp add: only_def)

lemma only_crash: "only P s \<Longrightarrow> only P (crash s)"
  by (simp add: only_def)

lemma routine_simps [simp]:
  "routine EvUnmapAllPartitions" "routine EvMapAllPartitions"
  "routine (EvOpenCowFd a b c)" "routine (EvSetBlockDeviceReadOnly d f g)"
  "routine (EvOpen h i j)" "routine (EvVerityInit k l)" "routine (EvVerityUpdate m n p)"
  "routine (EvVerityFinalize q)" "routine (EvSeek r)" "routine (EvRead t u v)"
  "routine EvNewHasher" "routine (EvHasherUpdate w x)" "routine (EvHasherFinalize y)"
  "routine (EvProgress z)" "routine (EvPostTask a')"
  "\<not> routine (EvVerifyExtents b' c' d' f')" "\<not> routine (EvSetOutputObject g')"
  "\<not> routine (EvActionComplete h')" "\<not> routine EvCancelTask"
  by (simp_all add: routine_def)

lemma reading_routine: "reading e \<Longrightarrow> routine e"
  by (cases e) (simp_all add: reading_def)

lemma only_UpdateProgress:
  assumes "\<And>e. routine e \<Longrightarrow> P e" and "only P s"
  shows "only P (UpdateProgress p s)"
  using assms by (simp add: only_def)

lemma only_InitializeFd:
  assumes "\<And>e. routine e \<Longrightarrow> P e" and "only P s"
  shows "only P (snd (InitializeFd env p s))"
  using assms by (simp add: only_def InitializeFd_trace)

lemma only_InitializeFdVABC:
  assumes "\<And>e. routine e \<Longrightarrow> P e" and "only P s"
  shows "only P (snd (InitializeFdVABC env s))"
  using assms by (simp add: only_def InitializeFdVABC_trace Let_def)

lemma only_Seek:
  assumes "\<And>e. routine e \<Longrightarrow> P e" and "only P s"
  shows "only P (Seek pos s)"
  using assms by (simp add: only_def)

lemma only_Read:
  assumes "\<And>e. routine e \<Longrightarrow> P e" and "only P s"
  shows "only P (snd (Read env n s))"
  using assms by (simp add: only_def Read_trace)

lemma only_read_rest:
  assumes "\<And>e. routine e \<Longrightarrow> P e" and "only P s"
  shows "only P (snd (read_rest env b s))"
proof -
  obtain new where "trace (snd (read_rest env b s)) = new @ trace s" and "list_all reading new"
    using read_rest_trace [of env b s] by blast
  with assms show ?thesis
    by (auto simp add: only_def list_all_iff reading_routine)
qed

lemma only_Cleanup:
  assumes "\<And>e. routine e \<Longrightarrow> P e" and "only P s"
    and "\<not> cancelled s \<Longrightarrow> P (EvActionComplete code)"
    and "\<not> cancelled s \<Longrightarrow> code = kSuccess \<Longrightarrow> out_pipe s \<Longrightarrow> P (EvSetOutputObject (install_plan s))"
  shows "only P (Cleanup env code s)"
  using assms by (simp add: only_def Cleanup_trace)

lemma verity_demand_simps [simp]:
  "verity_demand (EvVerityInit part ok) = (if ok then None else Some kVerityCalculationError)"
  "verity_demand (EvVerityUpdate off n ok) = (if ok then None else Some kVerityCalculationError)"
  "verity_demand (EvVerityFinalize ok) = (if ok then None else Some kFilesystemVerifierError)"
  "verity_demand (EvVerifyExtents a b c ok) = None"
  by (simp_all add: verity_demand_def)

lemma heeded_step:
  assumes m: "modest demand"
    and init: "\<And>part. demand (EvVerityInit part False) = None \<or>
        demand (EvVerityInit part False) = Some kVerityCalculationError"
      "\<And>part. demand (EvVerityInit part True) = None"
    and update: "\<And>off n. demand (EvVerityUpdate off n False) = None \<or>
        demand (EvVerityUpdate off n False) = Some kVerityCalculationError"
      "\<And>off n. demand (EvVerityUpdate off n True) = None"
    and finalize: "demand (EvVerityFinalize False) = None \<or>
        demand (EvVerityFinalize False) = Some kFilesystemVerifierError"
      "demand (EvVerityFinalize True) = None"
    and extents: "\<And>a b c. demand (EvVerifyExtents a b c False) = None \<or>
        demand (EvVerifyExtents a b c False) = Some kFilesystemVerifierError"
      "\<And>a b c. demand (EvVerifyExtents a b c True) = None"
    and pre: "heeded_pre demand pc s"
  shows "case body env pc s of Inr r \<Rightarrow> heeded demand r
         | Inl (pc', s') \<Rightarrow> heeded_pre demand pc' s'"
proof -
  note intros = heeded_emit heeded_Cleanup [OF m] heeded_failed [OF m] heeded_crash
    heeded_UpdateProgress [OF m] heeded_InitializeFd [OF m] heeded_InitializeFdVABC [OF m]
    heeded_Seek [OF m] heeded_Read [OF m] heeded_read_rest [OF m] modest_NoneI [OF m]
    init update finalize extents
  show ?thesis
  proof (cases pc)
    case AtStart
    with pre show ?thesis
      by (simp add: heeded_pre_def body.simps Let_def intros)
  next
    case AtSchedule
    with pre show ?thesis
      by (simp add: heeded_pre_def body.simps Let_def intros)
  next
    case AtReadVerity
    with pre show ?thesis
      by (simp add: heeded_pre_def body.simps Let_def intros split: option.split)
  next
    case AtFinish
    with pre show ?thesis
      by (simp add: heeded_pre_def body.simps Let_def intros split: VerifierStep.split)
  next
    case (AtOnReadDone bytes_read)
    with pre show ?thesis
      by (simp add: heeded_pre_def body.simps Let_def intros)
  next
    case (AtPerformAction input_object)
    with pre show ?thesis
      by (simp add: heeded_pre_def body.simps Let_def intros split: option.split)
  qed
qed

lemma heeded_run:
  assumes m: "modest demand"
    and init: "\<And>part. demand (EvVerityInit part False) = None \<or>
        demand (EvVerityInit part False) = Some kVerityCalculationError"
      "\<And>part. demand (EvVerityInit part True) = None"
    and update: "\<And>off n. demand (EvVerityUpdate off n False) = None \<or>
        demand (EvVerityUpdate off n False) = Some kVerityCalculationError"
      "\<And>off n. demand (EvVerityUpdate off n True) = None"
    and finalize: "demand (EvVerityFinalize False) = None \<or>
        demand (EvVerityFinalize False) = Some kFilesystemVerifierError"
      "demand (EvVerityFinalize True) = None"
    and extents: "\<And>a b c. demand (EvVerifyExtents a b c False) = None \<or>
        demand (EvVerifyExtents a b c False) = Some kFilesystemVerifierError"
      "\<And>a b c. demand (EvVerifyExtents a b c True) = None"
  shows "heeded demand (run env has_delegate has_out_pipe input_object ts)"
proof (rule run_rule [where Pre = "heeded_pre demand"])
  show "heeded_pre demand (AtPerformAction input_object) (new_action has_delegate has_out_pipe)"
    by (simp add: heeded_pre_def heeded_def new_action_def)
next
  fix pc s
  assume "heeded_pre demand pc s"
  with assms show "case body env pc s of Inr r \<Rightarrow> heeded demand r
      | Inl (pc', s') \<Rightarrow> heeded_pre demand pc' s'"
    by (rule heeded_step)
next
  fix s n
  assume "heeded demand s"
  then show "heeded_pre demand (AtOnReadDone n) (s\<lparr>pending_task := None\<rparr>)"
    by (simp add: heeded_pre_def)
next
  fix s
  assume "heeded demand s"
  then show "heeded demand (TerminateProcessing env s)"
    by (simp add: TerminateProcessing_def heeded_Cleanup [OF m] heeded_emit modest_NoneI [OF m])
qed

section \<open>The digest comparison\<close>

text \<open>
  C1. After the digest comparison at the end of a hashing pass (the hasher finalized, the
  action not cancelled): in the target step a matching digest goes on to the next
  partition, still in the target step; a mismatch with an empty \<open>source_hash\<close> ends
  with \<open>kNewRootfsVerificationError\<close>; a mismatch with a non-empty \<open>source_hash\<close>
  starts the source step on the same partition. In the source step a matching digest ends
  with \<open>kNewRootfsVerificationError\<close> and a mismatch with
  \<open>kDownloadStateInitializationError\<close>.
\<close>

theorem digest_comparison:
  assumes "hasher_Finalize env (now s)"
    and "partition_index s < length (partitions (install_plan s))"
    and "\<not> cancelled s"
  shows
    "(let s1 = emit (EvHasherFinalize True) s;
          part = partitions (install_plan s) ! partition_index s;
          digest = raw_hash env (now s1);
          next_partition = s1\<lparr>partition_index := partition_index s + 1,
                               buffer := 0, partition_fd := None\<rparr>;
          same_partition = s1\<lparr>verifier_step := kVerifySourceHash,
                               buffer := 0, partition_fd := None\<rparr>
      in (verifier_step s = kVerifyTargetHash \<and> target_hash part = digest \<longrightarrow>
            FinishPartitionHashing env s = StartPartitionHashing env next_partition \<and>
            verifier_step next_partition = kVerifyTargetHash) \<and>
         (verifier_step s = kVerifyTargetHash \<and> target_hash part \<noteq> digest \<and>
          source_hash part = [] \<longrightarrow>
            FinishPartitionHashing env s = Cleanup env kNewRootfsVerificationError s1 \<and>
            outcome (FinishPartitionHashing env s) = Some kNewRootfsVerificationError) \<and>
         (verifier_step s = kVerifyTargetHash \<and> target_hash part \<noteq> digest \<and>
          source_hash part \<noteq> [] \<longrightarrow>
            FinishPartitionHashing env s = StartPartitionHashing env same_partition \<and>
            partition_index same_partition = partition_index s) \<and>
         (verifier_step s = kVerifySourceHash \<and> source_hash part = digest \<longrightarrow>
            FinishPartitionHashing env s = Cleanup env kNewRootfsVerificationError s1 \<and>
            outcome (FinishPartitionHashing env s) = Some kNewRootfsVerificationError) \<and>
         (verifier_step s = kVerifySourceHash \<and> source_hash part \<noteq> digest \<longrightarrow>
            FinishPartitionHashing env s = Cleanup env kDownloadStateInitializationError s1 \<and>
            outcome (FinishPartitionHashing env s) = Some kDownloadStateInitializationError))"
proof -
  let ?s1 = "emit (EvHasherFinalize True) s"
  let ?part = "partitions (install_plan s) ! partition_index s"
  have unfold: "FinishPartitionHashing env s =
    (case verifier_step s of
       kVerifyTargetHash \<Rightarrow>
         (if target_hash ?part \<noteq> raw_hash env (now ?s1) then
            (if source_hash ?part = [] then Cleanup env kNewRootfsVerificationError ?s1
             else StartPartitionHashing env
                    (?s1\<lparr>verifier_step := kVerifySourceHash, buffer := 0, partition_fd := None\<rparr>))
          else StartPartitionHashing env
                 (?s1\<lparr>partition_index := partition_index s + 1, buffer := 0,
                       partition_fd := None\<rparr>))
     | kVerifySourceHash \<Rightarrow>
         (if source_hash ?part \<noteq> raw_hash env (now ?s1) then
            Cleanup env kDownloadStateInitializationError ?s1
          else Cleanup env kNewRootfsVerificationError ?s1))"
    using assms(1,2) by (subst FinishPartitionHashing.simps) (simp add: Let_def split: VerifierStep.split)
  have fin: "outcome (Cleanup env code ?s1) = Some code" for code
    using assms(3) by (simp add: outcome_Cleanup)
  show ?thesis
    unfolding Let_def by (cases "verifier_step s") (simp_all add: unfold fin)
qed



theorem digest_comparison_witness:
  "hasher_Finalize env_ok (now (hashed kVerifyTargetHash system_partition)) \<and>
   partition_index (hashed kVerifyTargetHash system_partition)
     < length (partitions (install_plan (hashed kVerifyTargetHash system_partition))) \<and>
   \<not> cancelled (hashed kVerifyTargetHash system_partition) \<and>
   FinishPartitionHashing env_ok (hashed kVerifyTargetHash system_partition) =
     StartPartitionHashing env_ok
       ((emit (EvHasherFinalize True) (hashed kVerifyTargetHash system_partition))
          \<lparr>partition_index := 1, buffer := 0, partition_fd := None\<rparr>) \<and>
   outcome (FinishPartitionHashing env_ok
     (hashed kVerifyTargetHash (system_partition\<lparr>target_hash := [0]\<rparr>)))
     = Some kNewRootfsVerificationError \<and>
   FinishPartitionHashing env_ok
     (hashed kVerifyTargetHash (system_partition\<lparr>target_hash := [0], source_hash := [1]\<rparr>)) =
     StartPartitionHashing env_ok
       ((emit (EvHasherFinalize True)
          (hashed kVerifyTargetHash (system_partition\<lparr>target_hash := [0], source_hash := [1]\<rparr>)))
          \<lparr>verifier_step := kVerifySourceHash, buffer := 0, partition_fd := None\<rparr>) \<and>
   outcome (FinishPartitionHashing env_ok
     (hashed kVerifySourceHash (system_partition\<lparr>source_hash := [0xAD, 0x7F]\<rparr>)))
     = Some kNewRootfsVerificationError \<and>
   outcome (FinishPartitionHashing env_ok
     (hashed kVerifySourceHash (system_partition\<lparr>source_hash := [1]\<rparr>)))
     = Some kDownloadStateInitializationError"
proof -
  have h1: "hasher_Finalize env_ok (now (hashed step part))" for step part
    by (simp add: env_ok_def)
  have h2: "partition_index (hashed step part)
      < length (partitions (install_plan (hashed step part)))" for step part
    by (simp add: hashed_simps plan_of_def)
  have h3: "\<not> cancelled (hashed step part)" for step part
    by (simp add: hashed_simps)
  note inst = digest_comparison [OF h1 h2 h3]
  note ev = Let_def hashed_simps plan_of_def system_partition_def env_ok_def
  have w1: "FinishPartitionHashing env_ok (hashed kVerifyTargetHash system_partition) =
     StartPartitionHashing env_ok
       ((emit (EvHasherFinalize True) (hashed kVerifyTargetHash system_partition))
          \<lparr>partition_index := 1, buffer := 0, partition_fd := None\<rparr>)"
    using inst [of kVerifyTargetHash system_partition] by (simp add: ev cong: conj_cong)
  have w2: "outcome (FinishPartitionHashing env_ok
     (hashed kVerifyTargetHash (system_partition\<lparr>target_hash := [0]\<rparr>)))
     = Some kNewRootfsVerificationError"
    using inst [of kVerifyTargetHash "system_partition\<lparr>target_hash := [0]\<rparr>"]
    by (simp add: ev cong: conj_cong)
  have w3: "FinishPartitionHashing env_ok
     (hashed kVerifyTargetHash (system_partition\<lparr>target_hash := [0], source_hash := [1]\<rparr>)) =
     StartPartitionHashing env_ok
       ((emit (EvHasherFinalize True)
          (hashed kVerifyTargetHash (system_partition\<lparr>target_hash := [0], source_hash := [1]\<rparr>)))
          \<lparr>verifier_step := kVerifySourceHash, buffer := 0, partition_fd := None\<rparr>)"
    using inst [of kVerifyTargetHash "system_partition\<lparr>target_hash := [0], source_hash := [1]\<rparr>"]
    by (simp add: ev cong: conj_cong)
  have w4: "outcome (FinishPartitionHashing env_ok
     (hashed kVerifySourceHash (system_partition\<lparr>source_hash := [0xAD, 0x7F]\<rparr>)))
     = Some kNewRootfsVerificationError"
    using inst [of kVerifySourceHash "system_partition\<lparr>source_hash := [0xAD, 0x7F]\<rparr>"]
    by (simp add: ev cong: conj_cong)
  have w5: "outcome (FinishPartitionHashing env_ok
     (hashed kVerifySourceHash (system_partition\<lparr>source_hash := [1]\<rparr>)))
     = Some kDownloadStateInitializationError"
    using inst [of kVerifySourceHash "system_partition\<lparr>source_hash := [1]\<rparr>"]
    by (simp add: ev cong: conj_cong)
  show ?thesis
    using h1 [of kVerifyTargetHash system_partition]
      h2 [of kVerifyTargetHash system_partition]
      h3 [of kVerifyTargetHash system_partition] w1 w2 w3 w4 w5
    by blast
qed

section \<open>The filesystem data end\<close>

lemma wrapped_tail: "(- 4096 :: 64 word) = 18446744073709547520"
  by simp

text \<open>
  C2 at a partition whose source is smaller than its hash tree offset. After a target
  mismatch the source pass takes the hash tree offset (8192) as the filesystem data end,
  not the least of the offsets and the source size (4096): it reads 8192 bytes of a
  4096-byte source, and the bytes left for the tail, \<open>partition_size - filesystem_data_end\<close>,
  wrap around to \<open>2 ^ 64 - 4096\<close>, so that the pass reads on until a read fails and ends
  in \<open>kFilesystemVerifierError\<close> without comparing a digest.
\<close>

theorem source_pass_filesystem_data_end:
  "(let r = run env_ok True True (Some (plan_of [verity_partition])) [RunTask]
    in verifier_step r = kVerifySourceHash \<and>
       partition_index r = 0 \<and>
       partition_size r = source_size verity_partition \<and>
       partition_size r = 4096 \<and>
       filesystem_data_end r = 8192 \<and>
       spec_filesystem_data_end verity_partition (partition_size r) = 4096 \<and>
       filesystem_data_end r \<noteq> spec_filesystem_data_end verity_partition (partition_size r) \<and>
       pending_task r = Some 8192 \<and>
       partition_size r - filesystem_data_end r = 2 ^ 64 - 4096) \<and>
   outcome (run env_source_ends True True (Some (plan_of [verity_partition])) [RunTask, RunTask])
     = Some kFilesystemVerifierError \<and>
   EvRead 8192 131072 0
     \<in> set (trace (run env_source_ends True True (Some (plan_of [verity_partition]))
         [RunTask, RunTask]))"
  by (simp add: run_eval env_source_ends_def env_ok_def plan_of_def verity_partition_def
      spec_filesystem_data_end_def outcome_def wrapped_tail)

section \<open>The forwarded plan\<close>

lemma forwards_update [simp]:
  "forwards plan op (verifier_step_update f0 s) = forwards plan op s"
  "forwards plan op (partition_index_update f1 s) = forwards plan op s"
  "forwards plan op (partition_fd_update f2 s) = forwards plan op s"
  "forwards plan op (buffer_update f3 s) = forwards plan op s"
  "forwards plan op (cancelled_update f4 s) = forwards plan op s"
  "forwards plan op (partition_size_update f5 s) = forwards plan op s"
  "forwards plan op (offset_update f6 s) = forwards plan op s"
  "forwards plan op (filesystem_data_end_update f7 s) = forwards plan op s"
  "forwards plan op (delegate_update f8 s) = forwards plan op s"
  "forwards plan op (pending_task_update f9 s) = forwards plan op s"
  "forwards plan op (crashed_update f10 s) = forwards plan op s"
  by (simp_all add: forwards_def)

lemma forwards_emit:
  "forwards plan op s \<Longrightarrow> benign e \<Longrightarrow> forwards plan op (emit e s)"
  by (auto simp add: forwards_def benign_def output_is_def split: event.splits)

lemma forwards_events:
  "forwards plan op s \<Longrightarrow> list_all benign new \<Longrightarrow> trace s' = new @ trace s \<Longrightarrow>
   install_plan s' = install_plan s \<Longrightarrow> out_pipe s' = out_pipe s \<Longrightarrow> forwards plan op s'"
  by (auto simp add: forwards_def benign_def output_is_def list_all_iff split: event.splits)

lemma forwards_Cleanup:
  "forwards plan op s \<Longrightarrow> forwards plan op (Cleanup env code s)"
  by (auto simp add: forwards_def Cleanup_trace output_is_def)

lemma forwards_crash:
  "forwards plan op s \<Longrightarrow> forwards plan op (crash s)"
  by (simp add: forwards_def)

lemma forwards_UpdateProgress:
  "forwards plan op s \<Longrightarrow> forwards plan op (UpdateProgress p s)"
  by (simp add: UpdateProgress_def forwards_emit benign_def)

lemma forwards_InitializeFd:
  "forwards plan op s \<Longrightarrow> forwards plan op (snd (InitializeFd env p s))"
  by (rule forwards_events [where new = "[_, _]"]) (simp_all add: InitializeFd_trace benign_def)

lemma forwards_InitializeFdVABC:
  "forwards plan op s \<Longrightarrow> forwards plan op (snd (InitializeFdVABC env s))"
  by (simp add: InitializeFdVABC_def Let_def forwards_InitializeFd forwards_emit benign_def)

lemma forwards_Seek:
  "forwards plan op s \<Longrightarrow> forwards plan op (Seek pos s)"
  by (simp add: Seek_def forwards_emit benign_def)

lemma forwards_Read:
  "forwards plan op s \<Longrightarrow> forwards plan op (snd (Read env n s))"
  by (rule forwards_events [where new = "[_]"]) (simp_all add: Read_trace benign_def)

lemma reading_benign: "list_all reading new \<Longrightarrow> list_all benign new"
  by (induction new) (auto simp add: reading_def benign_def split: event.splits)

lemma forwards_read_rest:
  "forwards plan op s \<Longrightarrow> forwards plan op (snd (read_rest env b s))"
  using read_rest_trace [of env b s] by (auto intro: forwards_events reading_benign)

lemmas forwards_intros =
  forwards_emit forwards_Cleanup forwards_crash forwards_UpdateProgress forwards_InitializeFd
  forwards_InitializeFdVABC forwards_Seek forwards_Read forwards_read_rest

lemma forwards_step:
  assumes "forwards_pre plan op pc s"
  shows "case body env pc s of Inr r \<Rightarrow> forwards plan op r
         | Inl (pc', s') \<Rightarrow> forwards_pre plan op pc' s'"
proof (cases pc)
  case AtStart
  with assms show ?thesis
    by (simp add: forwards_pre_def body.simps Let_def forwards_intros benign_def)
next
  case AtSchedule
  with assms show ?thesis
    by (simp add: forwards_pre_def body.simps Let_def forwards_intros benign_def)
next
  case AtReadVerity
  with assms show ?thesis
    by (simp add: forwards_pre_def body.simps Let_def forwards_intros benign_def
        split: option.split)
next
  case AtFinish
  with assms show ?thesis
    by (simp add: forwards_pre_def body.simps Let_def forwards_intros benign_def
        split: VerifierStep.split)
next
  case (AtOnReadDone bytes_read)
  with assms show ?thesis
    by (simp add: forwards_pre_def body.simps Let_def forwards_intros benign_def)
next
  case (AtPerformAction input_object)
  with assms show ?thesis
    by (auto simp add: forwards_pre_def forwards_def body.simps Let_def output_is_def)
qed

text \<open>
  C9. In every run on a plan received from the input pipe, the action holds that plan
  unchanged, every plan it forwards to the output pipe is equal to it (as a whole record,
  so field for field), and a run that completes with \<open>kSuccess\<close> and has an output
  pipe has forwarded it.
\<close>

theorem forwarded_plan_is_input:
  "(let r = run env has_delegate has_out_pipe (Some plan) ts
    in install_plan r = plan \<and>
       list_all (output_is plan) (trace r) \<and>
       (EvActionComplete kSuccess \<in> set (trace r) \<and> has_out_pipe \<longrightarrow>
          EvSetOutputObject plan \<in> set (trace r)))"
proof -
  have "forwards plan has_out_pipe (run env has_delegate has_out_pipe (Some plan) ts)"
  proof (rule run_rule [where Pre = "forwards_pre plan has_out_pipe"])
    show "forwards_pre plan has_out_pipe (AtPerformAction (Some plan))
        (new_action has_delegate has_out_pipe)"
      by (simp add: forwards_pre_def new_action_def)
  qed (simp_all add: forwards_step forwards_pre_def TerminateProcessing_def forwards_intros
      benign_def)
  then show ?thesis
    unfolding forwards_def Let_def by blast
qed

theorem forwarded_plan_is_input_witness:
  "(let r = run env_ok True True (Some (plan_of [system_partition])) [RunTask]
    in EvActionComplete kSuccess \<in> set (trace r) \<and>
       EvSetOutputObject (plan_of [system_partition]) \<in> set (trace r) \<and>
       list_all (output_is (plan_of [system_partition])) (trace r))"
proof -
  have "EvActionComplete kSuccess
      \<in> set (trace (run env_ok True True (Some (plan_of [system_partition])) [RunTask]))"
    by (simp add: run_eval env_ok_def plan_of_def system_partition_def)
  with forwarded_plan_is_input [of env_ok True True "plan_of [system_partition]" "[RunTask]"]
  show ?thesis
    by (simp add: Let_def)
qed

section \<open>Failures of the verity writer\<close>

text \<open>
  C7. In every run, a call of the verity writer that fails is directly followed by the
  cleanup (unmapping the partitions, the final progress update) and the completion of the
  action: with \<open>kVerityCalculationError\<close> after a failed \<open>Init\<close> or \<open>Update\<close>, with
  \<open>kFilesystemVerifierError\<close> after a failed \<open>Finalize\<close>.
\<close>

theorem verity_failure_ends_stage:
  "answered verity_demand None (trace (run env has_delegate has_out_pipe input_object ts))"
  using heeded_run [of verity_demand env has_delegate has_out_pipe input_object ts]
  by (simp add: modest_verity heeded_def)

theorem verity_failure_ends_stage_witness:
  "answered verity_demand None
     (trace (run (env_ok\<lparr>verity_Init := \<lambda>_ _. False\<rparr>) True True (Some verity_plan) [])) \<and>
   EvVerityInit verity_partition False
     \<in> set (trace (run (env_ok\<lparr>verity_Init := \<lambda>_ _. False\<rparr>) True True (Some verity_plan) [])) \<and>
   outcome (run (env_ok\<lparr>verity_Init := \<lambda>_ _. False\<rparr>) True True (Some verity_plan) [])
     = Some kVerityCalculationError \<and>
   outcome (run (env_ok\<lparr>verity_Update := \<lambda>_ _ _. False\<rparr>) True True (Some verity_plan) [RunTask])
     = Some kVerityCalculationError \<and>
   outcome (run (env_ok\<lparr>verity_Finalize := \<lambda>_. False\<rparr>) True True (Some verity_plan) [RunTask])
     = Some kFilesystemVerifierError"
proof (rule conjI)
  show "answered verity_demand None
     (trace (run (env_ok\<lparr>verity_Init := \<lambda>_ _. False\<rparr>) True True (Some verity_plan) []))"
    by (rule verity_failure_ends_stage)
  show "EvVerityInit verity_partition False
     \<in> set (trace (run (env_ok\<lparr>verity_Init := \<lambda>_ _. False\<rparr>) True True (Some verity_plan) [])) \<and>
   outcome (run (env_ok\<lparr>verity_Init := \<lambda>_ _. False\<rparr>) True True (Some verity_plan) [])
     = Some kVerityCalculationError \<and>
   outcome (run (env_ok\<lparr>verity_Update := \<lambda>_ _ _. False\<rparr>) True True (Some verity_plan) [RunTask])
     = Some kVerityCalculationError \<and>
   outcome (run (env_ok\<lparr>verity_Finalize := \<lambda>_. False\<rparr>) True True (Some verity_plan) [RunTask])
     = Some kFilesystemVerifierError"
    by (simp add: run_eval env_ok_def verity_plan_def plan_of_def verity_partition_def outcome_def)
qed

section \<open>A plan without partitions\<close>

text \<open>
  C10. On a plan without partitions \<open>PerformAction\<close> records the plan, forwards it if
  there is an output pipe, and completes with \<open>kSuccess\<close>. It does nothing else: the
  events of the whole run are these two at most, so no descriptor is opened, no progress
  is reported, the extents are not checked and no partition is unmapped.
\<close>

theorem empty_plan_completes_at_once:
  assumes "partitions plan = []"
  shows
    "PerformAction env (Some plan) s =
       s\<lparr>install_plan := plan,
         trace := EvActionComplete kSuccess #
                  (if out_pipe s then [EvSetOutputObject plan] else []) @ trace s\<rparr> \<and>
     trace (run env has_delegate has_out_pipe (Some plan) []) =
       EvActionComplete kSuccess # (if has_out_pipe then [EvSetOutputObject plan] else []) \<and>
     outcome (run env has_delegate has_out_pipe (Some plan) []) = Some kSuccess \<and>
     partition_fd (run env has_delegate has_out_pipe (Some plan) []) = None \<and>
     pending_task (run env has_delegate has_out_pipe (Some plan) []) = None"
  using assms
  by (simp add: PerformAction_def run_def Let_def emit_def new_action_def outcome_def)

theorem empty_plan_completes_at_once_witness:
  "partitions empty_plan = [] \<and>
   trace (run env_snapshot True True (Some empty_plan) []) =
     [EvActionComplete kSuccess, EvSetOutputObject empty_plan] \<and>
   trace (run env_snapshot True False (Some empty_plan) []) = [EvActionComplete kSuccess]"
proof -
  have e: "partitions empty_plan = []"
    by (simp add: empty_plan_def plan_of_def)
  from empty_plan_completes_at_once [OF e, of env_snapshot "new_action True True" True True]
    empty_plan_completes_at_once [OF e, of env_snapshot "new_action True True" True False]
  show ?thesis
    using e by simp
qed

section \<open>Cancellation\<close>

lemma cancelling_simps [simp]:
  "cancelling EvCancelTask" "cancelling EvUnmapAllPartitions"
  "\<not> cancelling (EvActionComplete code)" "\<not> cancelling (EvProgress p)"
  "\<not> cancelling (EvSetOutputObject plan)"
  by (simp_all add: cancelling_def)

lemma TerminateProcessing_stops:
  "stopped (TerminateProcessing env s) \<and>
   (\<exists>new. trace (TerminateProcessing env s) = new @ trace s \<and> list_all cancelling new)"
  by (simp add: TerminateProcessing_def Cleanup_def Let_def stopped_def emit_def)

lemma OnReadDone_cancelled:
  assumes "cancelled s"
  shows "OnReadDone env n s = Cleanup env kError s"
    and "cancelled (OnReadDone env n s)"
    and "partition_fd (OnReadDone env n s) = None"
    and "buffer (OnReadDone env n s) = 0"
    and "\<exists>new. trace (OnReadDone env n s) = new @ trace s \<and> list_all cancelling new"
  using assms by (simp_all add: OnReadDone_def Cleanup_def Let_def emit_def)

lemma take_turn_stopped:
  assumes "stopped s"
  shows "stopped (take_turn env t s) \<and>
    (\<exists>new. trace (take_turn env t s) = new @ trace s \<and> list_all cancelling new)"
proof (cases "crashed s")
  case True
  with assms show ?thesis by (simp add: take_turn_def)
next
  case False
  show ?thesis
  proof (cases t)
    case RunTask
    with assms False show ?thesis
      by (simp add: take_turn_def run_pending_def stopped_def)
  next
    case Cancel
    with False TerminateProcessing_stops [of env s] show ?thesis
      by (simp add: take_turn_def)
  qed
qed

lemma turns_stopped:
  assumes "stopped s"
  shows "stopped (turns env ts s) \<and>
    (\<exists>new. trace (turns env ts s) = new @ trace s \<and> list_all cancelling new)"
  using assms
proof (induction ts arbitrary: s)
  case Nil
  then show ?case by simp
next
  case (Cons t ts)
  from take_turn_stopped [OF Cons.prems, of env t]
  obtain new1 where s1: "stopped (take_turn env t s)"
    and t1: "trace (take_turn env t s) = new1 @ trace s" and c1: "list_all cancelling new1"
    by blast
  from Cons.IH [OF s1]
  obtain new2 where s2: "stopped (turns env ts (take_turn env t s))"
    and t2: "trace (turns env ts (take_turn env t s)) = new2 @ trace (take_turn env t s)"
    and c2: "list_all cancelling new2"
    by blast
  have "trace (turns env (t # ts) s) = (new2 @ new1) @ trace s"
    using t1 t2 by simp
  moreover have "list_all cancelling (new2 @ new1)"
    using c1 c2 by simp
  ultimately show ?case
    using s2 by (metis turns.simps(2))
qed

text \<open>
  C8. Once \<open>TerminateProcessing\<close> has been called, whatever turns follow, the action stays
  cancelled with no task pending and with its descriptor and buffer released, and all it
  has done since the call is to cancel its task and to unmap the partitions: it delivers
  no completion, no progress and no output object. A read task that would still run on a
  cancelled action likewise goes to \<open>Cleanup\<close>, which releases the descriptor and the
  buffer and delivers none of the three.
\<close>

theorem cancel_suppresses_outcome:
  "(let r = turns env ts (TerminateProcessing env s)
    in cancelled r \<and> pending_task r = None \<and> partition_fd r = None \<and> buffer r = 0 \<and>
       (\<exists>new. trace r = new @ trace s \<and> list_all cancelling new)) \<and>
   (cancelled s \<longrightarrow>
     (let d = OnReadDone env n s
      in d = Cleanup env kError s \<and> cancelled d \<and> partition_fd d = None \<and> buffer d = 0 \<and>
         (\<exists>new. trace d = new @ trace s \<and> list_all cancelling new)))"
proof -
  from TerminateProcessing_stops [of env s]
  obtain new1 where s1: "stopped (TerminateProcessing env s)"
    and t1: "trace (TerminateProcessing env s) = new1 @ trace s" and c1: "list_all cancelling new1"
    by blast
  from turns_stopped [OF s1, of env ts]
  obtain new2 where s2: "stopped (turns env ts (TerminateProcessing env s))"
    and t2: "trace (turns env ts (TerminateProcessing env s))
        = new2 @ trace (TerminateProcessing env s)"
    and c2: "list_all cancelling new2"
    by blast
  have "trace (turns env ts (TerminateProcessing env s)) = (new2 @ new1) @ trace s"
    using t1 t2 by simp
  moreover have "list_all cancelling (new2 @ new1)"
    using c1 c2 by simp
  ultimately have "\<exists>new. trace (turns env ts (TerminateProcessing env s)) = new @ trace s \<and>
      list_all cancelling new"
    by blast
  with s2 OnReadDone_cancelled [of s env n] show ?thesis
    by (simp add: Let_def stopped_def)
qed

theorem cancel_suppresses_outcome_witness:
  "cancelled ((run env_ok True True (Some (plan_of [system_partition])) [])\<lparr>cancelled := True\<rparr>) \<and>
   OnReadDone env_ok 4096
     ((run env_ok True True (Some (plan_of [system_partition])) [])\<lparr>cancelled := True\<rparr>) =
   Cleanup env_ok kError
     ((run env_ok True True (Some (plan_of [system_partition])) [])\<lparr>cancelled := True\<rparr>) \<and>
   trace (run env_ok True True (Some (plan_of [system_partition])) [Cancel, RunTask]) =
     EvCancelTask # trace (run env_ok True True (Some (plan_of [system_partition])) []) \<and>
   pending_task (run env_ok True True (Some (plan_of [system_partition])) []) = Some 4096"
proof -
  let ?s = "(run env_ok True True (Some (plan_of [system_partition])) [])\<lparr>cancelled := True\<rparr>"
  have c: "cancelled ?s" by simp
  from cancel_suppresses_outcome [of env_ok "[]" ?s 4096] c
  have d: "OnReadDone env_ok 4096 ?s = Cleanup env_ok kError ?s"
    by (simp add: Let_def)
  have t: "trace (run env_ok True True (Some (plan_of [system_partition])) [Cancel, RunTask]) =
     EvCancelTask # trace (run env_ok True True (Some (plan_of [system_partition])) []) \<and>
     pending_task (run env_ok True True (Some (plan_of [system_partition])) []) = Some 4096"
    by (simp add: run_eval env_ok_def plan_of_def system_partition_def)
  from c d t show ?thesis by blast
qed

section \<open>Partitions without a device path\<close>

lemma pathless_Start:
  assumes "partition_index s < length (partitions (install_plan s))"
    and "\<not> opened_by_snapshot env s"
    and "step_path (verifier_step s) (partitions (install_plan s) ! partition_index s) = []"
  shows "StartPartitionHashing env s =
    (if step_size (verifier_step s) (partitions (install_plan s) ! partition_index s) = 0
     then StartPartitionHashing env
            (s\<lparr>partition_size := 0, partition_index := partition_index s + 1\<rparr>)
     else Cleanup env kFilesystemVerifierError
            (s\<lparr>partition_size :=
                 step_size (verifier_step s) (partitions (install_plan s) ! partition_index s)\<rparr>))"
  using assms
  by (subst StartPartitionHashing.simps)
    (auto simp add: Let_def opened_by_snapshot_def step_path_def step_size_def
      split: VerifierStep.splits)

lemma pathless_plan_Start:
  assumes "\<forall>p\<in>set (partitions (install_plan s)).
      target_path p = [] \<and> target_size p = 0 \<and>
      \<not> (UpdateUsesSnapshotCompression env (now s) \<and>
         IsDynamicPartition env (now s) (name p) (target_slot (install_plan s)))"
    and "verifier_step s = kVerifyTargetHash" and "\<not> cancelled s"
    and "partition_index s \<le> length (partitions (install_plan s))"
  shows "outcome (StartPartitionHashing env s) =
    Some (if untouched_dynamic_partitions (install_plan s) = [] \<or>
             VerifyExtentsForUntouchedPartitions env (now s) (source_slot (install_plan s))
               (target_slot (install_plan s)) (untouched_dynamic_partitions (install_plan s))
          then kSuccess else kFilesystemVerifierError)"
  using assms
proof (induction "length (partitions (install_plan s)) - partition_index s" arbitrary: s)
  case 0
  then have "partition_index s = length (partitions (install_plan s))"
    by simp
  with 0 show ?case
    by (subst StartPartitionHashing.simps) (simp add: Let_def outcome_Cleanup)
next
  case (Suc k)
  let ?part = "partitions (install_plan s) ! partition_index s"
  let ?s' = "s\<lparr>partition_size := 0, partition_index := partition_index s + 1\<rparr>"
  from Suc.hyps(2) have less: "partition_index s < length (partitions (install_plan s))"
    by simp
  then have mem: "?part \<in> set (partitions (install_plan s))"
    by simp
  with Suc.prems(1) have part: "target_path ?part = []" "target_size ?part = 0"
    "\<not> (UpdateUsesSnapshotCompression env (now s) \<and>
       IsDynamicPartition env (now s) (name ?part) (target_slot (install_plan s)))"
    by blast+
  have "StartPartitionHashing env s = StartPartitionHashing env ?s'"
    using pathless_Start [of s env] less part Suc.prems(2)
    by (simp add: opened_by_snapshot_def step_path_def step_size_def)
  moreover have "outcome (StartPartitionHashing env ?s') =
    Some (if untouched_dynamic_partitions (install_plan ?s') = [] \<or>
             VerifyExtentsForUntouchedPartitions env (now ?s') (source_slot (install_plan ?s'))
               (target_slot (install_plan ?s')) (untouched_dynamic_partitions (install_plan ?s'))
          then kSuccess else kFilesystemVerifierError)"
  proof (rule Suc.hyps(1))
    show "k = length (partitions (install_plan ?s')) - partition_index ?s'"
      using Suc.hyps(2) by simp
  qed (use Suc.prems less in simp_all)
  ultimately show ?case
    by simp
qed

text \<open>
  C5, as the specification states it, fails in two ways. With snapshot compression and a
  dynamic partition the path is not consulted in the target step: a partition without
  paths and of size 0 is opened and hashed, not skipped (and the run fails when its
  digest does not match), and one of size 4096 is verified with success. And a plan of skipped partitions ends in \<open>kFilesystemVerifierError\<close>
  when the extent check of its untouched partitions fails.
\<close>

theorem pathless_partition_counterexample:
  "step_path kVerifyTargetHash (pathless 0) = [] \<and>
   step_size kVerifyTargetHash (pathless 0) = 0 \<and>
   EvOpen ''/dev/block/system_ro'' False True
     \<in> set (trace (run env_snapshot True True (Some (plan_of [pathless 0])) [])) \<and>
   EvHasherFinalize True
     \<in> set (trace (run env_snapshot True True (Some (plan_of [pathless 0])) [])) \<and>
   outcome (run env_snapshot True True
      (Some (plan_of [(pathless 0)\<lparr>target_hash := [0]\<rparr>])) [])
     = Some kNewRootfsVerificationError \<and>
   step_path kVerifyTargetHash (pathless 4096) = [] \<and>
   step_size kVerifyTargetHash (pathless 4096) = 4096 \<and>
   outcome (run env_snapshot True True (Some (plan_of [pathless 4096])) [RunTask])
     = Some kSuccess \<and>
   outcome (run (env_ok\<lparr>VerifyExtentsForUntouchedPartitions := \<lambda>_ _ _ _. False\<rparr>) True True
      (Some ((plan_of [pathless 0])\<lparr>untouched_dynamic_partitions := [''vendor'']\<rparr>)) [])
     = Some kFilesystemVerifierError"
  by (simp add: run_eval env_snapshot_def env_ok_def plan_of_def pathless_def
      system_partition_def step_path_def step_size_def outcome_def)

text \<open>
  C5, amended. A partition whose resolved path is empty and whose descriptor does not come
  from the dynamic partition control: if its resolved size is 0 it is skipped (nothing
  happens but that hashing starts on the next partition) and if not, the stage ends with
  \<open>kFilesystemVerifierError\<close>. A plan of partitions that are all skipped ends in
  \<open>kSuccess\<close> if it names no untouched dynamic partitions or their extent check passes,
  and in \<open>kFilesystemVerifierError\<close> if that check fails.
\<close>

theorem pathless_partition_skipped_or_fails:
  "(partition_index s < length (partitions (install_plan s)) \<and> \<not> cancelled s \<and>
    \<not> opened_by_snapshot env s \<and>
    step_path (verifier_step s) (partitions (install_plan s) ! partition_index s) = [] \<longrightarrow>
      (let sz = step_size (verifier_step s) (partitions (install_plan s) ! partition_index s)
       in (sz = 0 \<longrightarrow>
             StartPartitionHashing env s =
             StartPartitionHashing env
               (s\<lparr>partition_size := 0, partition_index := partition_index s + 1\<rparr>)) \<and>
          (sz \<noteq> 0 \<longrightarrow>
             StartPartitionHashing env s =
               Cleanup env kFilesystemVerifierError (s\<lparr>partition_size := sz\<rparr>) \<and>
             outcome (StartPartitionHashing env s) = Some kFilesystemVerifierError))) \<and>
   (partitions plan \<noteq> [] \<and>
    (\<forall>p\<in>set (partitions plan).
       target_path p = [] \<and> target_size p = 0 \<and>
       \<not> (UpdateUsesSnapshotCompression env 0 \<and>
          IsDynamicPartition env 0 (name p) (target_slot plan))) \<longrightarrow>
      outcome (run env has_delegate has_out_pipe (Some plan) []) =
        Some (if untouched_dynamic_partitions plan = [] \<or>
                 VerifyExtentsForUntouchedPartitions env 0 (source_slot plan) (target_slot plan)
                   (untouched_dynamic_partitions plan)
              then kSuccess else kFilesystemVerifierError))"
proof (intro conjI impI)
  assume a: "partition_index s < length (partitions (install_plan s)) \<and> \<not> cancelled s \<and>
    \<not> opened_by_snapshot env s \<and>
    step_path (verifier_step s) (partitions (install_plan s) ! partition_index s) = []"
  then have "\<not> cancelled (s\<lparr>partition_size := x\<rparr>)" for x
    by simp
  with a pathless_Start [of s env] show
    "let sz = step_size (verifier_step s) (partitions (install_plan s) ! partition_index s)
     in (sz = 0 \<longrightarrow>
           StartPartitionHashing env s =
           StartPartitionHashing env
             (s\<lparr>partition_size := 0, partition_index := partition_index s + 1\<rparr>)) \<and>
        (sz \<noteq> 0 \<longrightarrow>
           StartPartitionHashing env s =
             Cleanup env kFilesystemVerifierError (s\<lparr>partition_size := sz\<rparr>) \<and>
           outcome (StartPartitionHashing env s) = Some kFilesystemVerifierError)"
    by (simp add: Let_def outcome_Cleanup)
next
  assume b: "partitions plan \<noteq> [] \<and>
    (\<forall>p\<in>set (partitions plan).
       target_path p = [] \<and> target_size p = 0 \<and>
       \<not> (UpdateUsesSnapshotCompression env 0 \<and>
          IsDynamicPartition env 0 (name p) (target_slot plan)))"
  let ?s = "(new_action has_delegate has_out_pipe)\<lparr>install_plan := plan\<rparr>"
  have "outcome (StartPartitionHashing env ?s) =
    Some (if untouched_dynamic_partitions (install_plan ?s) = [] \<or>
             VerifyExtentsForUntouchedPartitions env (now ?s) (source_slot (install_plan ?s))
               (target_slot (install_plan ?s)) (untouched_dynamic_partitions (install_plan ?s))
          then kSuccess else kFilesystemVerifierError)"
    using b by (intro pathless_plan_Start) (simp_all add: new_action_def now_def)
  moreover have "now ?s = 0"
    by (simp add: new_action_def now_def)
  ultimately show "outcome (run env has_delegate has_out_pipe (Some plan) []) =
      Some (if untouched_dynamic_partitions plan = [] \<or>
               VerifyExtentsForUntouchedPartitions env 0 (source_slot plan) (target_slot plan)
                 (untouched_dynamic_partitions plan)
            then kSuccess else kFilesystemVerifierError)"
    using b by (simp add: run_def PerformAction_def)
qed

theorem pathless_partition_skipped_or_fails_witness:
  "StartPartitionHashing env_ok
     ((new_action True True)\<lparr>install_plan := plan_of [pathless 0, system_partition]\<rparr>) =
   StartPartitionHashing env_ok
     ((new_action True True)\<lparr>install_plan := plan_of [pathless 0, system_partition],
        partition_size := 0, partition_index := 1\<rparr>) \<and>
   outcome (StartPartitionHashing env_ok
     ((new_action True True)\<lparr>install_plan := plan_of [pathless 4096]\<rparr>))
     = Some kFilesystemVerifierError \<and>
   outcome (run env_ok True True (Some (plan_of [pathless 0, pathless 0])) []) = Some kSuccess \<and>
   outcome (run env_ok True True (Some (plan_of [pathless 0, system_partition])) [RunTask])
     = Some kSuccess"
proof -
  note ev = new_action_def plan_of_def pathless_def system_partition_def env_ok_def
    opened_by_snapshot_def step_path_def step_size_def now_def Let_def
  have w1: "StartPartitionHashing env_ok
     ((new_action True True)\<lparr>install_plan := plan_of [pathless 0, system_partition]\<rparr>) =
   StartPartitionHashing env_ok
     ((new_action True True)\<lparr>install_plan := plan_of [pathless 0, system_partition],
        partition_size := 0, partition_index := 1\<rparr>)"
    using pathless_partition_skipped_or_fails [THEN conjunct1,
        of "(new_action True True)\<lparr>install_plan := plan_of [pathless 0, system_partition]\<rparr>"
          env_ok]
    by (simp add: ev cong: conj_cong)
  have w2: "outcome (StartPartitionHashing env_ok
     ((new_action True True)\<lparr>install_plan := plan_of [pathless 4096]\<rparr>))
     = Some kFilesystemVerifierError"
    using pathless_partition_skipped_or_fails [THEN conjunct1,
        of "(new_action True True)\<lparr>install_plan := plan_of [pathless 4096]\<rparr>" env_ok]
    by (simp add: ev cong: conj_cong)
  have w3: "outcome (run env_ok True True (Some (plan_of [pathless 0, pathless 0])) [])
      = Some kSuccess"
    using pathless_partition_skipped_or_fails [THEN conjunct2,
        of "plan_of [pathless 0, pathless 0]" env_ok True True]
    by (simp add: ev cong: conj_cong)
  have w4: "outcome (run env_ok True True (Some (plan_of [pathless 0, system_partition])) [RunTask])
     = Some kSuccess"
    by (simp add: run_eval ev outcome_def)
  from w1 w2 w3 w4 show ?thesis by blast
qed

end
